theory Spec2Isabelle
  imports Complex_Main
begin

section \<open>Numbers and strings of the source language\<close>

text \<open>
  The sources are TypeScript.  A \<open>number\<close> is an IEEE 754 double: \<open>NaN\<close>, one of the two
  infinities, or a finite double.  \<open>Dbl m e\<close> is the double whose value is \<open>m\<close> times
  2 to the power \<open>e\<close>; every operation returns it in its normal form, with \<open>m\<close> odd,
  and zero as \<open>Dbl 0 0\<close>.  An operation computes the exact result and rounds it to
  the nearest double, a tie going to the even significand; a result beyond the
  largest double is an infinity, and one below the smallest subnormal is zero.
  The two zeros are one value here: comparisons and \<open>===\<close> do not tell them apart, and
  every divisor in the functions below is a non-zero constant, a length, or a
  number that the code has compared with zero first.
  Strings are lists of 8-bit characters; case conversion is that of the ASCII
  letters.
\<close>

datatype jsnum = NaN | PInf | NInf | Dbl int int

text \<open>The number of binary digits of a positive integer.\<close>

function bitLen :: "int \<Rightarrow> int" where
  "bitLen n = (if n \<le> 0 then 0 else 1 + bitLen (n div 2))"
  by auto

termination
  by (relation "measure nat") auto

declare bitLen.simps [simp del]

text \<open>The integer nearest to \<open>num / den\<close>, the even one of two that are equally near.\<close>

definition divHalfEven :: "int \<Rightarrow> int \<Rightarrow> int" where
  "divHalfEven num den =
     (let f = num div den; r = num mod den in
      if 2 * r < den then f else if 2 * r > den then f + 1 else if even f then f else f + 1)"

text \<open>The normal form of \<open>n\<close> times 2 to the power \<open>e\<close>.\<close>

function normDbl :: "int \<Rightarrow> int \<Rightarrow> jsnum" where
  "normDbl n e =
     (if n = 0 then Dbl 0 0 else if even n then normDbl (n div 2) (e + 1) else Dbl n e)"
  by auto

termination
  by (relation "measure (\<lambda>(n, e). nat \<bar>n\<bar>)") auto

declare normDbl.simps [simp del]

definition infinity :: "bool \<Rightarrow> jsnum" where
  "infinity pos = (if pos then PInf else NInf)"

text \<open>A double has 53 significant bits, so its significand is below 2 ^ 53; the
  exponent of its leading bit is at most 1023 and at least -1022, and below that
  the spacing stays 2 ^ -1074 (the subnormal numbers).  \<open>finish pos q n\<close> is the
  double of sign \<open>pos\<close> and magnitude \<open>n\<close> times 2 to the power \<open>q\<close>, for a rounded
  significand \<open>n\<close> and its exponent \<open>q\<close>: rounding up to 2 ^ 53 at the largest exponent
  overflows.\<close>

definition finish :: "bool \<Rightarrow> int \<Rightarrow> int \<Rightarrow> jsnum" where
  "finish pos q n =
     (if q = 971 \<and> n \<ge> 9007199254740992 then infinity pos
      else normDbl (if pos then n else - n) q)"

text \<open>Rounding \<open>m\<close> times 2 to the power \<open>e\<close>, for any integer \<open>m\<close>, to a double.\<close>

definition roundDbl :: "int \<Rightarrow> int \<Rightarrow> jsnum" where
  "roundDbl m e =
     (if m = 0 then Dbl 0 0
      else
        let a = \<bar>m\<bar>; e0 = e + bitLen a - 1 in
        if e0 \<ge> 1024 then infinity (m > 0)
        else
          let q = max e0 (- 1022) - 52;
              n = (if q \<le> e then a * 2 ^ nat (e - q) else divHalfEven a (2 ^ nat (q - e)))
          in finish (m > 0) q n)"

text \<open>The binary exponent of the positive fraction \<open>p / q\<close>: the \<open>e\<close> with
  \<open>2 ^ e \<le> p / q < 2 ^ (e + 1)\<close>.\<close>

definition binExp :: "int \<Rightarrow> int \<Rightarrow> int" where
  "binExp p q =
     (let d = bitLen p - bitLen q in
      if (if d \<ge> 0 then p \<ge> q * 2 ^ nat d else p * 2 ^ nat (- d) \<ge> q) then d else d - 1)"

text \<open>Rounding the fraction \<open>p / q\<close>, with \<open>q\<close> positive, to a double.\<close>

definition flFrac :: "int \<Rightarrow> int \<Rightarrow> jsnum" where
  "flFrac p q =
     (if p = 0 then Dbl 0 0
      else
        let a = \<bar>p\<bar>; e0 = binExp a q in
        if e0 \<ge> 1024 then infinity (p > 0)
        else
          let e = max e0 (- 1022) - 52;
              n = (if e \<ge> 0 then divHalfEven a (q * 2 ^ nat e)
                   else divHalfEven (a * 2 ^ nat (- e)) q)
          in finish (p > 0) e n)"

text \<open>The double nearest to a rational number.  A decimal literal of the source,
  such as 1.5 or 0.4, denotes this double.\<close>

definition fl :: "rat \<Rightarrow> jsnum" where
  "fl x = (case quotient_of x of (p, q) \<Rightarrow> flFrac p q)"

text \<open>The exact value of a finite double.\<close>

definition ratOf :: "int \<Rightarrow> int \<Rightarrow> rat" where
  "ratOf m e = (if e \<ge> 0 then of_int (m * 2 ^ nat e) else of_int m / of_int (2 ^ nat (- e)))"

fun jneg :: "jsnum \<Rightarrow> jsnum" where
  "jneg (Dbl m e) = Dbl (- m) e"
| "jneg PInf = NInf"
| "jneg NInf = PInf"
| "jneg NaN = NaN"

text \<open>The sign of a number that is neither zero nor \<open>NaN\<close>.\<close>

fun positive :: "jsnum \<Rightarrow> bool" where
  "positive (Dbl m e) = (m > 0)"
| "positive PInf = True"
| "positive NInf = False"
| "positive NaN = False"

fun isZero :: "jsnum \<Rightarrow> bool" where
  "isZero (Dbl m e) = (m = 0)"
| "isZero x = False"

fun jadd :: "jsnum \<Rightarrow> jsnum \<Rightarrow> jsnum" where
  "jadd (Dbl m1 e1) (Dbl m2 e2) =
     (let e = min e1 e2 in roundDbl (m1 * 2 ^ nat (e1 - e) + m2 * 2 ^ nat (e2 - e)) e)"
| "jadd NaN _ = NaN"
| "jadd _ NaN = NaN"
| "jadd PInf NInf = NaN"
| "jadd NInf PInf = NaN"
| "jadd PInf _ = PInf"
| "jadd NInf _ = NInf"
| "jadd (Dbl m e) y = y"

definition jsub :: "jsnum \<Rightarrow> jsnum \<Rightarrow> jsnum" where
  "jsub x y = jadd x (jneg y)"

fun jmul :: "jsnum \<Rightarrow> jsnum \<Rightarrow> jsnum" where
  "jmul (Dbl m1 e1) (Dbl m2 e2) = roundDbl (m1 * m2) (e1 + e2)"
| "jmul NaN _ = NaN"
| "jmul _ NaN = NaN"
| "jmul x y =
     (if isZero x \<or> isZero y then NaN else infinity (positive x = positive y))"

text \<open>A quotient \<open>x / y\<close>.  A non-zero number over zero is an infinity, zero over zero
  is \<open>NaN\<close>.\<close>

fun jquot :: "jsnum \<Rightarrow> jsnum \<Rightarrow> jsnum" where
  "jquot (Dbl m1 e1) (Dbl m2 e2) =
     (if m2 = 0 then (if m1 = 0 then NaN else infinity (m1 > 0))
      else flFrac ((if m2 > 0 then m1 else - m1) * 2 ^ nat (e1 - e2)) (\<bar>m2\<bar> * 2 ^ nat (e2 - e1)))"
| "jquot NaN _ = NaN"
| "jquot _ NaN = NaN"
| "jquot (Dbl m e) _ = Dbl 0 0"
| "jquot x (Dbl m e) = infinity (positive x = (m \<ge> 0))"
| "jquot _ _ = NaN"

text \<open>Comparisons; with \<open>NaN\<close> they are false.\<close>

fun jle :: "jsnum \<Rightarrow> jsnum \<Rightarrow> bool" where
  "jle (Dbl m1 e1) (Dbl m2 e2) =
     (let e = min e1 e2 in m1 * 2 ^ nat (e1 - e) \<le> m2 * 2 ^ nat (e2 - e))"
| "jle NaN _ = False"
| "jle _ NaN = False"
| "jle NInf _ = True"
| "jle _ PInf = True"
| "jle _ _ = False"

fun jgt :: "jsnum \<Rightarrow> jsnum \<Rightarrow> bool" where
  "jgt (Dbl m1 e1) (Dbl m2 e2) =
     (let e = min e1 e2 in m1 * 2 ^ nat (e1 - e) > m2 * 2 ^ nat (e2 - e))"
| "jgt NaN _ = False"
| "jgt _ NaN = False"
| "jgt NInf _ = False"
| "jgt _ PInf = False"
| "jgt _ _ = True"

text \<open>\<open>Number(x.toFixed(2))\<close>.  \<open>toFixed\<close> takes the exact value of the double, picks the
  nearest multiple of 1/100 of its magnitude (the larger of two that are equally
  near) and prints it; \<open>Number\<close> reads the decimal string back as the nearest double.
  From 10 ^ 21 on, and for \<open>NaN\<close> and the infinities, the string is that of the
  number itself.\<close>

fun jtoFixed2 :: "jsnum \<Rightarrow> jsnum" where
  "jtoFixed2 (Dbl m e) =
     (let a = \<bar>ratOf m e\<bar> in
      if a \<ge> 10 ^ 21 then Dbl m e
      else fl ((if m < 0 then - 1 else 1) * of_int \<lfloor>a * 100 + 1 / 2\<rfloor> / 100))"
| "jtoFixed2 x = x"

text \<open>\<open>Math.round(x)\<close>: the integer nearest to \<open>x\<close>, a tie going towards plus
  infinity.\<close>

fun mathRound :: "jsnum \<Rightarrow> jsnum" where
  "mathRound (Dbl m e) = fl (of_int \<lfloor>ratOf m e + 1 / 2\<rfloor>)"
| "mathRound x = x"

text \<open>\<open>Math.round(x * k) / l\<close>; the product and the quotient are rounded to doubles.\<close>

definition jroundScaled :: "rat \<Rightarrow> rat \<Rightarrow> jsnum \<Rightarrow> jsnum" where
  "jroundScaled k l x = jquot (mathRound (jmul x (fl k))) (fl l)"

definition jround2 :: "jsnum \<Rightarrow> jsnum" where
  "jround2 x = jroundScaled 100 100 x"

definition upperChars :: string where
  "upperChars = ''ABCDEFGHIJKLMNOPQRSTUVWXYZ''"

definition lowerChars :: string where
  "lowerChars = ''abcdefghijklmnopqrstuvwxyz''"

definition lowerChar :: "char \<Rightarrow> char" where
  "lowerChar c = (case map_of (zip upperChars lowerChars) c of Some d \<Rightarrow> d | None \<Rightarrow> c)"

definition toLowerCase :: "string \<Rightarrow> string" where
  "toLowerCase s = map lowerChar s"

text \<open>The white space of \<open>\s\<close> and of \<open>trim\<close> among the characters of a string here:
  space, tab, line feed, vertical tab, form feed, carriage return and the
  no-break space.\<close>

definition isSpace :: "char \<Rightarrow> bool" where
  "isSpace c =
     (c \<in> set [CHR '' '', CHR 0x09, CHR 0x0A, CHR 0x0B, CHR 0x0C, CHR 0x0D, CHR 0xA0])"

definition trim :: "string \<Rightarrow> string" where
  "trim s = rev (dropWhile isSpace (rev (dropWhile isSpace s)))"

text \<open>\<open>s.includes(t)\<close>: \<open>t\<close> occurs in \<open>s\<close> as a contiguous substring.\<close>

fun isPrefix :: "string \<Rightarrow> string \<Rightarrow> bool" where
  "isPrefix [] s = True"
| "isPrefix (a # t) [] = False"
| "isPrefix (a # t) (b # s) = (a = b \<and> isPrefix t s)"

fun includesStr :: "string \<Rightarrow> string \<Rightarrow> bool" where
  "includesStr [] t = (t = [])"
| "includesStr (a # s) t = (isPrefix t (a # s) \<or> includesStr s t)"

text \<open>\<open>xs.join(sep)\<close>.\<close>

fun join :: "string \<Rightarrow> string list \<Rightarrow> string" where
  "join sep [] = []"
| "join sep [x] = x"
| "join sep (x # y # ys) = x @ sep @ join sep (y # ys)"

text \<open>\<open>s.split(sep)\<close> for a non-empty separator: the pieces between the
  occurrences of \<open>sep\<close>, scanned from the left; always at least one piece.\<close>

fun splitAcc :: "string \<Rightarrow> string \<Rightarrow> string \<Rightarrow> string list" where
  "splitAcc sep acc [] = [rev acc]"
| "splitAcc sep acc (a # s) =
     (if isPrefix sep (a # s) \<and> sep \<noteq> []
      then rev acc # splitAcc sep [] (drop (length sep) (a # s))
      else splitAcc sep (a # acc) s)"

definition splitStr :: "string \<Rightarrow> string \<Rightarrow> string list" where
  "splitStr sep s = splitAcc sep [] s"

section \<open>The discrepancy engine (analyzeInvoice)\<close>

text \<open>A row as the loop reads it: the numeric fields hold the values of
  \<open>Number(row.BilledWeight)\<close>, \<open>Number(row.ActualWeight)\<close> and
  \<open>Number(row.TotalBilledAmount)\<close>, any number, \<open>NaN\<close> for a cell that does not
  convert; order type and zones are arbitrary strings.\<close>

record CsvRow =
  AWB :: string
  OrderType :: string
  BilledWeight :: jsnum
  ActualWeight :: jsnum
  BilledZone :: string
  ActualZone :: string
  TotalBilledAmount :: jsnum

record ContractRules =
  zone_a_rate :: jsnum
  zone_b_rate :: jsnum
  zone_c_rate :: jsnum
  cod_fee_percentage :: jsnum
  rto_flat_fee :: jsnum

record Discrepancy =
  awb_number :: string
  issue_type :: string
  billed_amount :: jsnum
  correct_amount :: jsnum
  difference :: jsnum

record AnalysisResult =
  discrepancies :: "Discrepancy list"
  totalOvercharge :: jsnum
  totalRows :: nat
  totalBilled :: jsnum

text \<open>
  \<open>ZONE_RATE_MAP\<close> is an object literal with the own keys A, B and C.  A property
  read \<open>ZONE_RATE_MAP[actualZone]\<close> also finds what the object inherits from
  \<open>Object.prototype\<close>: under those names it yields a function (or the prototype
  object), which is truthy and names no field of the contract.
\<close>

datatype rate_key = Zone_a_rate | Zone_b_rate | Zone_c_rate

datatype zone_lookup = Own rate_key | Inherited | Undefined

definition objectPrototypeKeys :: "string list" where
  "objectPrototypeKeys =
     [''constructor'', ''__defineGetter__'', ''__defineSetter__'', ''hasOwnProperty'',
      ''__lookupGetter__'', ''__lookupSetter__'', ''isPrototypeOf'',
      ''propertyIsEnumerable'', ''toString'', ''valueOf'', ''__proto__'',
      ''toLocaleString'']"

definition ZONE_RATE_MAP :: "string \<Rightarrow> zone_lookup" where
  "ZONE_RATE_MAP z =
     (if z = ''A'' then Own Zone_a_rate
      else if z = ''B'' then Own Zone_b_rate
      else if z = ''C'' then Own Zone_c_rate
      else if z \<in> set objectPrototypeKeys then Inherited
      else Undefined)"

fun contractRate :: "ContractRules \<Rightarrow> rate_key \<Rightarrow> jsnum" where
  "contractRate c Zone_a_rate = zone_a_rate c"
| "contractRate c Zone_b_rate = zone_b_rate c"
| "contractRate c Zone_c_rate = zone_c_rate c"

text \<open>\<open>rateKey ? contractRules[rateKey] : 0\<close>.  An inherited value is truthy, the
  contract has no such field, and the \<open>undefined\<close> read from it is \<open>NaN\<close> in all the
  arithmetic that follows.\<close>

definition baseRate :: "ContractRules \<Rightarrow> CsvRow \<Rightarrow> jsnum" where
  "baseRate c row =
     (case ZONE_RATE_MAP (ActualZone row) of
        Own k \<Rightarrow> contractRate c k
      | Inherited \<Rightarrow> NaN
      | Undefined \<Rightarrow> Dbl 0 0)"

definition expectedFreight :: "ContractRules \<Rightarrow> CsvRow \<Rightarrow> jsnum" where
  "expectedFreight c row = jmul (baseRate c row) (BilledWeight row)"

definition expectedTotal :: "ContractRules \<Rightarrow> CsvRow \<Rightarrow> jsnum" where
  "expectedTotal c row =
     (if OrderType row = ''COD''
      then jadd (expectedFreight c row)
             (jquot (jmul (expectedFreight c row) (cod_fee_percentage c)) (fl 100))
      else expectedFreight c row)"

definition rowDifference :: "ContractRules \<Rightarrow> CsvRow \<Rightarrow> jsnum" where
  "rowDifference c row = jsub (TotalBilledAmount row) (expectedTotal c row)"

definition reasons :: "ContractRules \<Rightarrow> CsvRow \<Rightarrow> string list" where
  "reasons c row =
     (let r1 = (if BilledZone row \<noteq> ActualZone row then [''Zone Mismatch''] else []);
          r2 = (if jgt (BilledWeight row) (ActualWeight row) then r1 @ [''Weight Overcharge'']
                else r1);
          r3 = (if OrderType row = ''Prepaid''
                   \<and> jgt (TotalBilledAmount row) (jadd (expectedFreight c row) (Dbl 1 0))
                then r2 @ [''Invalid COD Charge''] else r2)
      in if length r3 = 0 then r3 @ [''Rate Overcharge''] else r3)"

definition mkDiscrepancy :: "ContractRules \<Rightarrow> CsvRow \<Rightarrow> Discrepancy" where
  "mkDiscrepancy c row =
     \<lparr> awb_number = AWB row,
       issue_type = join '', '' (reasons c row),
       billed_amount = TotalBilledAmount row,
       correct_amount = jtoFixed2 (expectedTotal c row),
       difference = jtoFixed2 (rowDifference c row) \<rparr>"

text \<open>The loop over the rows, with the two accumulators of the source:
  the discrepancies pushed so far and the running \<open>totalBilled\<close>.\<close>

fun analyzeLoop ::
  "ContractRules \<Rightarrow> CsvRow list \<Rightarrow> Discrepancy list \<Rightarrow> jsnum \<Rightarrow> Discrepancy list \<times> jsnum" where
  "analyzeLoop c [] ds tb = (ds, tb)"
| "analyzeLoop c (row # rest) ds tb =
     (if jle (rowDifference c row) (Dbl 1 0)
      then analyzeLoop c rest ds (jadd tb (TotalBilledAmount row))
      else analyzeLoop c rest (ds @ [mkDiscrepancy c row]) (jadd tb (TotalBilledAmount row)))"

definition analyzeInvoice :: "CsvRow list \<Rightarrow> ContractRules \<Rightarrow> AnalysisResult" where
  "analyzeInvoice csvData c =
     (let (ds, tb) = analyzeLoop c csvData [] (Dbl 0 0);
          total = foldl (\<lambda>sum d. jadd sum (difference d)) (Dbl 0 0) ds
      in \<lparr> discrepancies = ds,
           totalOvercharge = jtoFixed2 total,
           totalRows = length csvData,
           totalBilled = jtoFixed2 tb \<rparr>)"

text \<open>The rows that the loop records, in the order of the input.\<close>

definition flagged :: "ContractRules \<Rightarrow> CsvRow list \<Rightarrow> Discrepancy list" where
  "flagged c rows =
     map (mkDiscrepancy c) (filter (\<lambda>row. \<not> jle (rowDifference c row) (Dbl 1 0)) rows)"

text \<open>The contract and the row of the end-to-end scenario; the literal 1.5 is the
  double 3/2.  The scenario leaves the RTO fee open, and the engine never reads
  it.\<close>

definition scenarioContract :: "jsnum \<Rightarrow> ContractRules" where
  "scenarioContract rto =
     \<lparr> zone_a_rate = fl 40, zone_b_rate = fl 55, zone_c_rate = fl 75,
       cod_fee_percentage = fl (3 / 2), rto_flat_fee = rto \<rparr>"

definition rowX1 :: CsvRow where
  "rowX1 =
     \<lparr> AWB = ''X1'', OrderType = ''Prepaid'', BilledWeight = Dbl 1 0, ActualWeight = Dbl 1 0,
       BilledZone = ''A'', ActualZone = ''A'', TotalBilledAmount = fl 45 \<rparr>"

text \<open>Three rows around the tolerance.  The first is billed 41 against a freight of
  40.  The second is billed 41.01, the literal standing for the nearest double.
  The third is billed 127.5 in zone B for 2.3 kg: the freight 55 * 2.3 is the
  double just below 126.5, and the difference is the double just above 1.\<close>

definition rowBilled41 :: CsvRow where
  "rowBilled41 = rowX1\<lparr>TotalBilledAmount := fl 41\<rparr>"

definition rowBilled4101 :: CsvRow where
  "rowBilled4101 = rowX1\<lparr>TotalBilledAmount := fl (4101 / 100)\<rparr>"

definition rowZoneB :: CsvRow where
  "rowZoneB =
     \<lparr> AWB = ''X4'', OrderType = ''Prepaid'', BilledWeight = fl (23 / 10),
       ActualWeight = fl (23 / 10), BilledZone = ''B'', ActualZone = ''B'',
       TotalBilledAmount = fl (255 / 2) \<rparr>"

text \<open>A row whose actual zone is the name of a property that every object inherits,
  billed half a rupee.\<close>

definition rowInheritedZone :: CsvRow where
  "rowInheritedZone =
     \<lparr> AWB = ''X3'', OrderType = ''COD'', BilledWeight = Dbl 1 0, ActualWeight = Dbl 1 0,
       BilledZone = ''constructor'', ActualZone = ''constructor'',
       TotalBilledAmount = fl (1 / 2) \<rparr>"

section \<open>The audit history recorder (categorizeOvercharge)\<close>

record OverchargeByType =
  weightMismatch :: jsnum
  zoneMismatch :: jsnum
  duplicateAWB :: jsnum
  incorrectCOD :: jsnum
  rtoMismatch :: jsnum
  other :: jsnum

text \<open>\<open>d.issue_type.split(", ").map((t) => t.trim())\<close> and
  \<open>d.difference / (types.length || 1)\<close>.\<close>

definition issueTypes :: "Discrepancy \<Rightarrow> string list" where
  "issueTypes d = map trim (splitStr '', '' (issue_type d))"

definition share :: "Discrepancy \<Rightarrow> jsnum" where
  "share d =
     jquot (difference d)
       (fl (of_nat (if length (issueTypes d) = 0 then 1 else length (issueTypes d))))"

text \<open>The body of the inner loop: the first bucket whose keyword the lower-cased
  label contains receives the share.\<close>

definition addShare :: "jsnum \<Rightarrow> OverchargeByType \<Rightarrow> string \<Rightarrow> OverchargeByType" where
  "addShare sh result type =
     (let lower = toLowerCase type in
      if includesStr lower ''weight'' then result\<lparr>weightMismatch := jadd (weightMismatch result) sh\<rparr>
      else if includesStr lower ''zone'' then result\<lparr>zoneMismatch := jadd (zoneMismatch result) sh\<rparr>
      else if includesStr lower ''duplicate'' then result\<lparr>duplicateAWB := jadd (duplicateAWB result) sh\<rparr>
      else if includesStr lower ''cod'' then result\<lparr>incorrectCOD := jadd (incorrectCOD result) sh\<rparr>
      else if includesStr lower ''rto'' then result\<lparr>rtoMismatch := jadd (rtoMismatch result) sh\<rparr>
      else result\<lparr>other := jadd (other result) sh\<rparr>)"

definition addDiscrepancy :: "OverchargeByType \<Rightarrow> Discrepancy \<Rightarrow> OverchargeByType" where
  "addDiscrepancy result d = foldl (addShare (share d)) result (issueTypes d)"

text \<open>\<open>result[key] = Math.round(result[key] * 100) / 100\<close> for each of the six keys.\<close>

definition roundBuckets :: "OverchargeByType \<Rightarrow> OverchargeByType" where
  "roundBuckets result =
     \<lparr> weightMismatch = jround2 (weightMismatch result),
       zoneMismatch = jround2 (zoneMismatch result),
       duplicateAWB = jround2 (duplicateAWB result),
       incorrectCOD = jround2 (incorrectCOD result),
       rtoMismatch = jround2 (rtoMismatch result),
       other = jround2 (other result) \<rparr>"

definition zeroBuckets :: OverchargeByType where
  "zeroBuckets =
     \<lparr> weightMismatch = Dbl 0 0, zoneMismatch = Dbl 0 0, duplicateAWB = Dbl 0 0,
       incorrectCOD = Dbl 0 0, rtoMismatch = Dbl 0 0, other = Dbl 0 0 \<rparr>"

definition categorizeOvercharge :: "Discrepancy list \<Rightarrow> OverchargeByType" where
  "categorizeOvercharge ds = roundBuckets (foldl addDiscrepancy zeroBuckets ds)"

text \<open>The sum of the six buckets of a record, added in the order of the keys.\<close>

definition bucketTotal :: "OverchargeByType \<Rightarrow> jsnum" where
  "bucketTotal r =
     foldl jadd (Dbl 0 0)
       [weightMismatch r, zoneMismatch r, duplicateAWB r, incorrectCOD r, rtoMismatch r, other r]"

text \<open>The buckets of a run sum to its total overcharge within a tolerance when the
  distance between the two is a number that is at most the tolerance.\<close>

definition withinTolerance :: "jsnum \<Rightarrow> OverchargeByType \<Rightarrow> jsnum \<Rightarrow> bool" where
  "withinTolerance tol r t =
     (jle (jsub (bucketTotal r) t) tol \<and> jle (jsub t (bucketTotal r)) tol)"

text \<open>A discrepancy of 10 that carries two labels, and one of 2.01.\<close>

definition dualLabelled :: Discrepancy where
  "dualLabelled =
     \<lparr> awb_number = ''X2'', issue_type = ''Zone Mismatch, Weight Overcharge'',
       billed_amount = fl 50, correct_amount = fl 40, difference = fl 10 \<rparr>"

definition dualLabelledOdd :: Discrepancy where
  "dualLabelledOdd = dualLabelled\<lparr>billed_amount := fl (4201 / 100), difference := fl (201 / 100)\<rparr>"

section \<open>The weight regression analyzer (runRegression)\<close>

record WeightDataPoint =
  provider :: string
  awb :: string
  declaredWeight_g :: jsnum
  billedWeight_g :: jsnum
  date :: nat

record RegressionResult =
  provider :: string
  pointCount :: nat
  slope :: jsnum
  intercept :: jsnum
  r2 :: jsnum
  avgOverchargePct :: jsnum

definition MIN_POINTS_FOR_REGRESSION :: nat where
  "MIN_POINTS_FOR_REGRESSION = 30"

text \<open>The first loop: the five running sums \<open>sumX\<close>, \<open>sumY\<close>, \<open>sumXY\<close>, \<open>sumX2\<close> and
  \<open>sumOverchargePct\<close>.\<close>

record regressionSums =
  sumX :: jsnum
  sumY :: jsnum
  sumXY :: jsnum
  sumX2 :: jsnum
  sumOverchargePct :: jsnum

definition sumStep :: "regressionSums \<Rightarrow> WeightDataPoint \<Rightarrow> regressionSums" where
  "sumStep acc p =
     (let x = declaredWeight_g p; y = billedWeight_g p in
      \<lparr> sumX = jadd (sumX acc) x,
        sumY = jadd (sumY acc) y,
        sumXY = jadd (sumXY acc) (jmul x y),
        sumX2 = jadd (sumX2 acc) (jmul x x),
        sumOverchargePct =
          (if jgt x (Dbl 0 0)
           then jadd (sumOverchargePct acc) (jquot (jsub y x) x)
           else sumOverchargePct acc) \<rparr>)"

definition zeroSums :: regressionSums where
  "zeroSums = \<lparr> sumX = Dbl 0 0, sumY = Dbl 0 0, sumXY = Dbl 0 0, sumX2 = Dbl 0 0,
                sumOverchargePct = Dbl 0 0 \<rparr>"

text \<open>The second loop: \<open>ssTot\<close> and \<open>ssRes\<close> for the fitted line \<open>m * x + b\<close>; a square
  \<open>d ** 2\<close> is the rounded product of \<open>d\<close> with itself.\<close>

definition ssStep :: "jsnum \<Rightarrow> jsnum \<Rightarrow> jsnum \<Rightarrow> jsnum \<times> jsnum \<Rightarrow> WeightDataPoint \<Rightarrow> jsnum \<times> jsnum" where
  "ssStep m b meanY acc p =
     (let y = billedWeight_g p;
          yHat = jadd (jmul m (declaredWeight_g p)) b;
          dTot = jsub y meanY;
          dRes = jsub y yHat
      in (jadd (fst acc) (jmul dTot dTot), jadd (snd acc) (jmul dRes dRes)))"

text \<open>\<open>n * sumX2 - sumX * sumX\<close>, as the code computes it from the running sums.\<close>

definition regressionDenom :: "WeightDataPoint list \<Rightarrow> jsnum" where
  "regressionDenom points =
     (let s = foldl sumStep zeroSums points;
          nn = fl (of_nat (length points))
      in jsub (jmul nn (sumX2 s)) (jmul (sumX s) (sumX s)))"

definition runRegression :: "WeightDataPoint list \<Rightarrow> RegressionResult option" where
  "runRegression points =
     (let n = length points in
      if n < MIN_POINTS_FOR_REGRESSION then None
      else
        let s = foldl sumStep zeroSums points;
            nn = fl (of_nat n);
            denom = jsub (jmul nn (sumX2 s)) (jmul (sumX s) (sumX s))
        in if denom = Dbl 0 0 then None
           else
             let m = jquot (jsub (jmul nn (sumXY s)) (jmul (sumX s) (sumY s))) denom;
                 b = jquot (jsub (sumY s) (jmul m (sumX s))) nn;
                 meanY = jquot (sumY s) nn;
                 (ssTot, ssRes) = foldl (ssStep m b meanY) (Dbl 0 0, Dbl 0 0) points;
                 r2 = (if ssTot = Dbl 0 0 then Dbl 1 0 else jsub (Dbl 1 0) (jquot ssRes ssTot))
             in Some \<lparr> provider = WeightDataPoint.provider (hd points),
                       pointCount = n,
                       slope = jroundScaled 10000 10000 m,
                       intercept = jroundScaled 100 100 b,
                       r2 = jroundScaled 10000 10000 r2,
                       avgOverchargePct =
                         jroundScaled 10000 100 (jquot (sumOverchargePct s) nn) \<rparr>)"

text \<open>The average the claim describes, in exact arithmetic: the mean, over the points
  whose declared weight is positive only, of \<open>(billed - declared) / declared \<times> 100\<close>,
  rounded to two decimals.\<close>

fun valueOf :: "jsnum \<Rightarrow> rat" where
  "valueOf (Dbl m e) = ratOf m e"
| "valueOf x = 0"

definition overchargeRatio :: "WeightDataPoint \<Rightarrow> rat" where
  "overchargeRatio p =
     (valueOf (billedWeight_g p) - valueOf (declaredWeight_g p)) / valueOf (declaredWeight_g p)"

definition meanOverchargePct :: "WeightDataPoint list \<Rightarrow> rat" where
  "meanOverchargePct points =
     (let pos = filter (\<lambda>p. jgt (declaredWeight_g p) (Dbl 0 0)) points in
      of_int \<lfloor>sum_list (map overchargeRatio pos) / of_nat (length pos) * 100 * 100 + 1 / 2\<rfloor> / 100)"

text \<open>Thirty points of one provider: twenty-nine declared at 100 g and billed at
  110 g, and one whose declared weight rounded to 0 g.\<close>

definition pointTenPercent :: WeightDataPoint where
  "pointTenPercent =
     \<lparr> WeightDataPoint.provider = ''Delhivery'', awb = ''W1'', declaredWeight_g = fl 100,
       billedWeight_g = fl 110, date = 0 \<rparr>"

definition pointZeroDeclared :: WeightDataPoint where
  "pointZeroDeclared =
     \<lparr> WeightDataPoint.provider = ''Delhivery'', awb = ''W0'', declaredWeight_g = Dbl 0 0,
       billedWeight_g = Dbl 1 0, date = 0 \<rparr>"

definition pointsWithZero :: "WeightDataPoint list" where
  "pointsWithZero = replicate 29 pointTenPercent @ [pointZeroDeclared]"

text \<open>Thirty points with one and the same declared weight, 1.1 g, all billed at
  1.21 g; the literals stand for the nearest doubles.\<close>

definition pointIdentical :: WeightDataPoint where
  "pointIdentical =
     \<lparr> WeightDataPoint.provider = ''Delhivery'', awb = ''W2'', declaredWeight_g = fl (11 / 10),
       billedWeight_g = fl (121 / 100), date = 0 \<rparr>"

definition identicalPoints :: "WeightDataPoint list" where
  "identicalPoints = replicate 30 pointIdentical"

text \<open>Thirty points of 33333333 g each, billed at 36666666 g.\<close>

definition pointHeavy :: WeightDataPoint where
  "pointHeavy =
     \<lparr> WeightDataPoint.provider = ''Delhivery'', awb = ''W3'', declaredWeight_g = fl 33333333,
       billedWeight_g = fl 36666666, date = 0 \<rparr>"

definition heavyPoints :: "WeightDataPoint list" where
  "heavyPoints = replicate 30 pointHeavy"

text \<open>Twenty-nine points declared at 1e200 and billed at 1.1e200, and one declared at
  2e200 and billed at 2.3e200.\<close>

definition pointHuge :: WeightDataPoint where
  "pointHuge =
     \<lparr> WeightDataPoint.provider = ''Delhivery'', awb = ''W4'', declaredWeight_g = fl (10 ^ 200),
       billedWeight_g = fl (11 * 10 ^ 199), date = 0 \<rparr>"

definition pointHuger :: WeightDataPoint where
  "pointHuger =
     \<lparr> WeightDataPoint.provider = ''Delhivery'', awb = ''W5'',
       declaredWeight_g = fl (2 * 10 ^ 200), billedWeight_g = fl (23 * 10 ^ 199), date = 0 \<rparr>"

definition hugePoints :: "WeightDataPoint list" where
  "hugePoints = replicate 29 pointHuge @ [pointHuger]"

section \<open>The header locator (findHeaderRow)\<close>

definition HEADER_KEYWORDS :: "string list" where
  "HEADER_KEYWORDS =
     [''awb'', ''zone'', ''weight'', ''amount'', ''type'', ''order'',
      ''pincode'', ''date'', ''cod'', ''shipment'', ''invoice'', ''billed'',
      ''actual'', ''freight'', ''tracking'']"

text \<open>The number of keywords that occur in some cell of the row, the cells
  lower-cased and trimmed.\<close>

definition matchCount :: "string list \<Rightarrow> nat" where
  "matchCount row =
     (let cellsLower = map (\<lambda>c. trim (toLowerCase c)) row in
      length (filter (\<lambda>kw. list_ex (\<lambda>cell. includesStr cell kw) cellsLower) HEADER_KEYWORDS))"

text \<open>The loop over the rows from index \<open>i\<close> on, carrying \<open>bestIndex\<close> and
  \<open>bestMatches\<close>; a row of fewer than two cells is skipped, and a row that matches
  four keywords or more ends the loop.\<close>

fun findLoop :: "nat \<Rightarrow> string list list \<Rightarrow> nat \<times> nat \<Rightarrow> nat \<times> nat" where
  "findLoop i [] best = best"
| "findLoop i (row # rest) (bestIndex, bestMatches) =
     (if length row < 2 then findLoop (Suc i) rest (bestIndex, bestMatches)
      else
        let mc = matchCount row;
            best = (if mc > bestMatches then (i, mc) else (bestIndex, bestMatches))
        in if mc \<ge> 4 then best else findLoop (Suc i) rest best)"

definition findHeaderRow :: "string list list \<Rightarrow> nat" where
  "findHeaderRow rows = fst (findLoop 0 (take (min (length rows) 10) rows) (0, 0))"

text \<open>The rows the loop looks at: among the first ten, those with two cells or more.\<close>

definition isCandidate :: "string list list \<Rightarrow> nat \<Rightarrow> bool" where
  "isCandidate rows j = (j < length rows \<and> j < 10 \<and> 2 \<le> length (rows ! j))"

text \<open>The criterion of the claim: the number of non-empty cells of a row.\<close>

definition nonEmptyCells :: "string list \<Rightarrow> nat" where
  "nonEmptyCells row = length (filter (\<lambda>c. c \<noteq> []) row)"

text \<open>The criterion of the comment above the function, "a row is considered a header
  when 2 or more of its cells contain one of the keywords": the number of cells,
  lower-cased and trimmed, that contain a keyword.\<close>

definition keywordCells :: "string list \<Rightarrow> nat" where
  "keywordCells row =
     length (filter (\<lambda>cell. list_ex (\<lambda>kw. includesStr cell kw) HEADER_KEYWORDS)
       (map (\<lambda>c. trim (toLowerCase c)) row))"

text \<open>A grid whose second row has one keyword cell and one empty cell, and the grid
  of the header locator's own example.\<close>

definition gridEmptyCell :: "string list list" where
  "gridEmptyCell = [[''Report'', ''2024''], [''AWB No'', []]]"

definition gridDelhivery :: "string list list" where
  "gridDelhivery =
     [[''Report Generated: Jan 2024''],
      [''Account: XYZ Corp''],
      [''AWB No.'', ''Zone'', ''Weight''],
      [''X1'', ''A'', ''1.0'']]"

text \<open>The number of keywords matched by the row that \<open>findHeaderRow\<close> returns, when that
  row is one the loop looked at, and 0 otherwise.\<close>

definition selectedCount :: "string list list \<Rightarrow> nat" where
  "selectedCount rows =
     (if isCandidate rows (findHeaderRow rows) then matchCount (rows ! findHeaderRow rows) else 0)"

text \<open>A grid whose first row matches six keywords and whose second row matches more.\<close>

definition gridStrong :: "string list list" where
  "gridStrong =
     [[''AWB'', ''Order Type'', ''Billed Weight'', ''Zone''],
      [''AWB Tracking Shipment Invoice Date'', ''Amount Freight COD'']]"

text \<open>The test that lets a row into the loop body, \<open>row.length < 2\<close> negated.\<close>

definition cand :: "string list \<Rightarrow> bool" where
  "cand row = (2 \<le> length row)"

section \<open>The value normalizer (normalizeWeight)\<close>

text \<open>The untyped values a cell can hold.  \<open>JOther s\<close> stands for any value that is
  neither \<open>null\<close>, \<open>undefined\<close>, a number, a string nor a boolean, given by the string
  \<open>s\<close> that \<open>String(raw)\<close> makes of it.\<close>

datatype jsval = JNull | JUndefined | JNum jsnum | JStr string | JBool bool | JOther string

definition isDigit :: "char \<Rightarrow> bool" where
  "isDigit c = (c \<in> set ''0123456789'')"

definition digitVal :: "char \<Rightarrow> nat" where
  "digitVal c = (case map_of (zip ''0123456789'' [0 ..< 10]) c of Some d \<Rightarrow> d | None \<Rightarrow> 0)"

definition digitsVal :: "string \<Rightarrow> nat" where
  "digitsVal ds = foldl (\<lambda>acc c. 10 * acc + digitVal c) 0 ds"

text \<open>
  \<open>parseFloat\<close>: after leading white space, the longest prefix that is a decimal
  literal (a sign, digits, a fraction, an exponent with at least one digit);
  \<open>NaN\<close> when there is no digit.  The value is the double nearest to the literal, an
  infinity when the literal is too large.  The literal \<open>Infinity\<close> is not modelled:
  the callers pass lower-cased strings, in which it cannot occur.
\<close>

definition parseExponent :: "string \<Rightarrow> int" where
  "parseExponent s =
     (case s of
        [] \<Rightarrow> 0
      | c # r \<Rightarrow>
          if c = CHR ''e'' \<or> c = CHR ''E'' then
            (case r of
               [] \<Rightarrow> 0
             | d # r' \<Rightarrow>
                 if d = CHR ''-'' then
                   (if takeWhile isDigit r' = [] then 0 else - int (digitsVal (takeWhile isDigit r')))
                 else if d = CHR ''+'' then int (digitsVal (takeWhile isDigit r'))
                 else int (digitsVal (takeWhile isDigit r)))
          else 0)"

definition parseFloat :: "string \<Rightarrow> jsnum" where
  "parseFloat s =
     (let s1 = dropWhile isSpace s;
          neg = (case s1 of [] \<Rightarrow> False | c # r \<Rightarrow> c = CHR ''-'');
          s2 = (case s1 of [] \<Rightarrow> [] | c # r \<Rightarrow> if c = CHR ''-'' \<or> c = CHR ''+'' then r else s1);
          intDigits = takeWhile isDigit s2;
          s3 = dropWhile isDigit s2;
          hasPoint = (case s3 of [] \<Rightarrow> False | c # r \<Rightarrow> c = CHR ''.'');
          fracDigits = (if hasPoint then takeWhile isDigit (tl s3) else []);
          s4 = (if hasPoint then dropWhile isDigit (tl s3) else s3)
      in if intDigits = [] \<and> fracDigits = [] then NaN
         else
           let mantissa = of_nat (digitsVal intDigits)
                 + of_nat (digitsVal fracDigits) / 10 ^ length fracDigits;
               e = parseExponent s4;
               magnitude = (if e < 0 then mantissa / 10 ^ nat (- e) else mantissa * 10 ^ nat e)
           in fl (if neg then - magnitude else magnitude))"

text \<open>The capture group \<open>(\d+\.?\d*)\<close> at the start of a string, with what follows it.\<close>

definition captureNumber :: "string \<Rightarrow> (string \<times> string) option" where
  "captureNumber s =
     (let d1 = takeWhile isDigit s; r1 = dropWhile isDigit s in
      if d1 = [] then None
      else case r1 of
             [] \<Rightarrow> Some (d1, r1)
           | c # after \<Rightarrow>
               if c = CHR ''.''
               then Some (d1 @ [c] @ takeWhile isDigit after, dropWhile isDigit after)
               else Some (d1, r1))"

text \<open>An optional character of a pattern, such as \<open>r?\<close>.\<close>

definition optChar :: "char \<Rightarrow> string \<Rightarrow> string" where
  "optChar c s = (case s of [] \<Rightarrow> [] | x # r \<Rightarrow> if x = c then r else s)"

text \<open>\<open>\s*gr?a?m?s?$\<close> and \<open>\s*kgs?$\<close>.\<close>

definition gramSuffix :: "string \<Rightarrow> bool" where
  "gramSuffix s =
     (case dropWhile isSpace s of
        [] \<Rightarrow> False
      | c # r \<Rightarrow>
          c = CHR ''g''
          \<and> optChar CHR ''s'' (optChar CHR ''m'' (optChar CHR ''a'' (optChar CHR ''r'' r))) = [])"

definition kgSuffix :: "string \<Rightarrow> bool" where
  "kgSuffix s =
     (case dropWhile isSpace s of
        c # d # r \<Rightarrow> c = CHR ''k'' \<and> d = CHR ''g'' \<and> optChar CHR ''s'' r = []
      | _ \<Rightarrow> False)"

text \<open>The part of \<open>normalizeWeight\<close> that works on \<open>String(raw)\<close>.\<close>

definition normalizeWeightString :: "string \<Rightarrow> jsnum" where
  "normalizeWeightString s =
     (let str = trim (toLowerCase s) in
      case captureNumber str of
        Some (num, rest) \<Rightarrow>
          if gramSuffix rest then jquot (parseFloat num) (fl 1000)
          else if kgSuffix rest then parseFloat num
          else (if parseFloat str = NaN then Dbl 0 0 else parseFloat str)
      | None \<Rightarrow> (if parseFloat str = NaN then Dbl 0 0 else parseFloat str))"

text \<open>\<open>null\<close>, \<open>undefined\<close> and the empty string give 0, a number is returned as it
  is, and every other value goes through \<open>String(raw)\<close>.\<close>

fun normalizeWeight :: "jsval \<Rightarrow> jsnum" where
  "normalizeWeight JNull = Dbl 0 0"
| "normalizeWeight JUndefined = Dbl 0 0"
| "normalizeWeight (JNum n) = n"
| "normalizeWeight (JStr s) = (if s = [] then Dbl 0 0 else normalizeWeightString s)"
| "normalizeWeight (JBool b) = normalizeWeightString (if b then ''true'' else ''false'')"
| "normalizeWeight (JOther s) = normalizeWeightString s"

section \<open>The column matcher (detectColumns)\<close>

definition VARIATIONS :: "(string \<times> string list) list" where
  "VARIATIONS =
     [(''AWB'',
        [''awb'', ''awb no'', ''awb number'', ''awbno'', ''awbnumber'', ''awb_no'',
         ''airway bill'', ''airwaybill'', ''tracking number'', ''tracking no'',
         ''tracking_number'', ''shipment id'', ''consignment number'', ''consignment no'',
         ''waybill'', ''way bill'', ''docket number'', ''docket no'']),
      (''OrderType'',
        [''order type'', ''ordertype'', ''order_type'', ''type'', ''shipment type'',
         ''cod prepaid'', ''cod/prepaid'', ''payment type'', ''delivery type'',
         ''service type'', ''mode'']),
      (''BilledWeight'',
        [''billed weight'', ''billed wt'', ''billed_weight'', ''billedweight'',
         ''charged weight'', ''charge weight'', ''invoice weight'', ''invoiced weight'',
         ''chargeable weight'', ''chargeable wt'', ''applicable weight'']),
      (''ActualWeight'',
        [''actual weight'', ''actual wt'', ''actual_weight'', ''actualweight'',
         ''real weight'', ''dead weight'', ''dead wt'', ''physical weight'',
         ''declared weight'', ''package weight'', ''item weight'', ''gross weight'']),
      (''BilledZone'',
        [''billed zone'', ''zone'', ''delivery zone'', ''shipment zone'',
         ''charged zone'', ''invoice zone'', ''billing zone'', ''service zone'',
         ''applicable zone'']),
      (''ActualZone'',
        [''actual zone'', ''actual_zone'', ''correct zone'', ''calculated zone'',
         ''expected zone'', ''correct_zone'']),
      (''TotalBilledAmount'',
        [''total billed amount'', ''total'', ''invoice amount'', ''billed amount'',
         ''amount'', ''total amount'', ''charged amount'', ''invoice total'',
         ''net amount'', ''total charges'', ''billing amount'', ''freight charges'',
         ''total freight'', ''amount payable'', ''grand total'']),
      (''Length'',
        [''length'', ''len'', ''pkg length'', ''package length'',
         ''l (cm)'', ''length cm'', ''length(cm)'']),
      (''Width'',
        [''width'', ''wid'', ''pkg width'', ''package width'',
         ''w (cm)'', ''width cm'', ''width(cm)'']),
      (''Height'',
        [''height'', ''ht'', ''pkg height'', ''package height'',
         ''h (cm)'', ''height cm'', ''height(cm)'']),
      (''OriginPincode'',
        [''origin pincode'', ''origin pin'', ''origin_pincode'', ''from pincode'',
         ''source pincode'', ''pickup pincode'', ''origin pin code'', ''sender pincode'',
         ''source pin'', ''from pin'', ''origin zip'', ''pickup pin'']),
      (''DestPincode'',
        [''dest pincode'', ''destination pincode'', ''dest pin'', ''destination pin'',
         ''to pincode'', ''delivery pincode'', ''dest_pincode'', ''consignee pincode'',
         ''delivery pin'', ''to pin'', ''dest zip'', ''delivery zip'']),
      (''CODAmount'',
        [''cod amount'', ''cod charges'', ''cash on delivery'', ''cod_amount'',
         ''cod fee'', ''cod value'', ''cod charge'', ''cod'']),
      (''ShipmentDate'',
        [''shipment date'', ''date'', ''booking date'', ''ship date'', ''dispatch date'',
         ''created date'', ''invoice date'', ''order date'', ''manifest date''])]"

definition REQUIRED_CANONICAL :: "string list" where
  "REQUIRED_CANONICAL =
     [''AWB'', ''OrderType'', ''BilledWeight'', ''ActualWeight'',
      ''BilledZone'', ''ActualZone'', ''TotalBilledAmount'']"

definition OPTIONAL_CANONICAL :: "string list" where
  "OPTIONAL_CANONICAL =
     [''Length'', ''Width'', ''Height'', ''OriginPincode'', ''DestPincode'',
      ''CODAmount'', ''ShipmentDate'']"

definition ALL_CANONICAL :: "string list" where
  "ALL_CANONICAL = REQUIRED_CANONICAL @ OPTIONAL_CANONICAL"

definition CONFIDENCE_THRESHOLD :: rat where
  "CONFIDENCE_THRESHOLD = 8 / 10"

text \<open>\<open>normalise\<close>: lower case, every character outside \<open>[a-z0-9 ]\<close> replaced by a
  space, runs of spaces collapsed to one, and the ends trimmed.\<close>

definition isAlnumSpace :: "char \<Rightarrow> bool" where
  "isAlnumSpace c = (c \<in> set (lowerChars @ ''0123456789 ''))"

fun collapseSpaces :: "string \<Rightarrow> string" where
  "collapseSpaces [] = []"
| "collapseSpaces [c] = [c]"
| "collapseSpaces (c # d # s) =
     (if c = CHR '' '' \<and> d = CHR '' '' then collapseSpaces (d # s)
      else c # collapseSpaces (d # s))"

definition normalise :: "string \<Rightarrow> string" where
  "normalise s =
     trim (collapseSpaces (map (\<lambda>c. if isAlnumSpace c then c else CHR '' '') (toLowerCase s)))"

text \<open>\<open>levenshtein\<close> with the rolling row of the source: \<open>levInner\<close> computes
  \<open>curr[j]\<close> for \<open>j \<ge> 1\<close> from the previous row (given from \<open>prev[j - 1]\<close> on) and from
  \<open>curr[j - 1]\<close>.\<close>

fun levInner :: "char \<Rightarrow> string \<Rightarrow> nat list \<Rightarrow> nat \<Rightarrow> nat list" where
  "levInner ai [] prev left = []"
| "levInner ai (bj # bs) (pd # pj # ps) left =
     (let v = (if ai = bj then pd else 1 + min pj (min left pd))
      in v # levInner ai bs (pj # ps) v)"
| "levInner ai (bj # bs) prev left = []"

definition levenshtein :: "string \<Rightarrow> string \<Rightarrow> nat" where
  "levenshtein a b =
     last (foldl (\<lambda>prev (i, ai). i # levInner ai b prev i)
             [0 ..< Suc (length b)] (zip [1 ..< Suc (length a)] a))"

text \<open>The words of a normalised string, without repetition.\<close>

definition wordSet :: "string \<Rightarrow> string list" where
  "wordSet s = remdups (filter (\<lambda>w. w \<noteq> []) (splitStr '' '' s))"

definition similarity :: "string \<Rightarrow> string \<Rightarrow> rat" where
  "similarity a b =
     (let na = normalise a; nb = normalise b in
      if na = nb then 1
      else if includesStr na nb \<or> includesStr nb na then 9 / 10
      else
        let wa = wordSet na; wb = wordSet nb;
            intersection = length (filter (\<lambda>w. w \<in> set wb) wa);
            union = length (remdups (wa @ wb))
        in if intersection > 0
           then 55 / 100 + (of_nat intersection / of_nat union) * (35 / 100)
           else
             let dist = levenshtein na nb; maxLen = max (length na) (length nb)
             in if maxLen = 0 then 1 else max 0 (1 - of_nat dist / of_nat maxLen))"

record DetectionResult =
  mapping :: "string \<rightharpoonup> string option"
  confidences :: "string \<rightharpoonup> rat"
  lowConfidenceFields :: "string list"
  needsManualReview :: bool

text \<open>The best score of a raw header for a canonical field: against the name of
  the field and against each of its variations.\<close>

definition variationsOf :: "string \<Rightarrow> string list" where
  "variationsOf canonical = (case map_of VARIATIONS canonical of Some vs \<Rightarrow> vs | None \<Rightarrow> [])"

definition bestScore :: "string \<Rightarrow> string \<Rightarrow> rat" where
  "bestScore canonical raw =
     foldl (\<lambda>best v. let s = similarity raw v in if s > best then s else best)
       (similarity raw canonical) (variationsOf canonical)"

text \<open>The candidates of a field: the raw headers that score at least 0.4, sorted by
  descending score (the sort is stable).\<close>

definition candidates :: "string list \<Rightarrow> string \<Rightarrow> (string \<times> rat) list" where
  "candidates rawHeaders canonical =
     sort_key (\<lambda>c. - snd c)
       (filter (\<lambda>c. snd c \<ge> 4 / 10) (map (\<lambda>raw. (raw, bestScore canonical raw)) rawHeaders))"

text \<open>The greedy assignment: the state is the mapping \<open>mp\<close>, the confidences \<open>cf\<close> and
  the raw headers used so far.\<close>

type_synonym assignment = "(string \<rightharpoonup> string option) \<times> (string \<rightharpoonup> rat) \<times> string list"

definition assignStep :: "string list \<Rightarrow> assignment \<Rightarrow> string \<Rightarrow> assignment" where
  "assignStep rawHeaders st canonical =
     (case st of (mp, cf, usedRawHeaders) \<Rightarrow>
        (case find (\<lambda>c. fst c \<notin> set usedRawHeaders) (candidates rawHeaders canonical) of
           Some topCand \<Rightarrow>
             (mp(canonical \<mapsto> Some (fst topCand)),
              cf(canonical \<mapsto> snd topCand),
              fst topCand # usedRawHeaders)
         | None \<Rightarrow>
             (mp(canonical \<mapsto> None), cf(canonical \<mapsto> 0), usedRawHeaders)))"

definition detectColumns :: "string list \<Rightarrow> DetectionResult" where
  "detectColumns rawHeaders =
     (case foldl (assignStep rawHeaders) (Map.empty, Map.empty, []) ALL_CANONICAL of
        (mp, cf, usedRawHeaders) \<Rightarrow>
          let low =
                filter (\<lambda>f. (case cf f of Some s \<Rightarrow> s | None \<Rightarrow> 0) < CONFIDENCE_THRESHOLD
                             \<or> mp f = Some None)
                  REQUIRED_CANONICAL
          in \<lparr> mapping = mp,
               confidences = cf,
               lowConfidenceFields = low,
               needsManualReview = (length low > 0) \<rparr>)"

text \<open>Two raw headers that each contain the name of the first canonical field and a
  variation of the second.\<close>

definition sampleHeaders :: "string list" where
  "sampleHeaders = [''AWB Type'', ''Type of AWB'']"

text \<open>What the greedy assignment keeps true of its state: an assigned raw header is
  marked as used and carries a confidence of at least 0.4, an unassigned field has
  confidence 0, and no raw header is assigned to two fields.\<close>

definition assignInv :: "assignment \<Rightarrow> bool" where
  "assignInv st =
     (case st of (mp, cf, used) \<Rightarrow>
        (\<forall>f h. mp f = Some (Some h) \<longrightarrow> h \<in> set used \<and> (\<exists>s. cf f = Some s \<and> 4 / 10 \<le> s))
        \<and> (\<forall>f. mp f = Some None \<longrightarrow> cf f = Some 0)
        \<and> (\<forall>f g h. mp f = Some (Some h) \<and> mp g = Some (Some h) \<longrightarrow> f = g))"



subsection \<open>Evaluating the rounding functions\<close>

lemma floor_rat_numeral_divide [simp]:
  "\<lfloor>numeral a / numeral b :: rat\<rfloor> = numeral a div numeral b"
  by (metis floor_divide_of_int_eq of_int_numeral)

lemma floor_rat_minus_numeral_divide [simp]:
  "\<lfloor>- (numeral a / numeral b) :: rat\<rfloor> = - numeral a div numeral b"
  by (metis divide_minus_left floor_divide_of_int_eq of_int_neg_numeral of_int_numeral)

lemma floor_rat_one_divide [simp]:
  "\<lfloor>1 / numeral b :: rat\<rfloor> = 1 div numeral b"
  by (metis floor_divide_of_int_eq of_int_1 of_int_numeral)

lemma fl_zero [simp]: "fl 0 = Dbl 0 0"
  by (simp add: fl_def flFrac_def)

lemma roundDbl_zero [simp]: "roundDbl 0 e = Dbl 0 0"
  by (simp add: roundDbl_def)

lemma flFrac_zero [simp]: "flFrac 0 q = Dbl 0 0"
  by (simp add: flFrac_def)

text \<open>Some doubles: 1 and 100 are themselves, 1.01 and 0.1 are not the decimals
  that denote them.\<close>

lemma fl_samples:
  "fl 1 = Dbl 1 0"
  "fl 100 = Dbl 25 2"
  "fl (101 / 100) = Dbl 4548635623644201 (- 52)"
  "fl (1 / 10) = Dbl 3602879701896397 (- 55)"
  "fl (- (3 / 2)) = Dbl (- 3) (- 1)"
  by code_simp+

text \<open>The sum 0.1 + 0.2 is the double above 0.3, and 55 * 2.3 is the double below
  126.5.\<close>

lemma float_samples:
  "jadd (fl (1 / 10)) (fl (2 / 10)) = Dbl 1351079888211149 (- 52)"
  "fl (3 / 10) = Dbl 5404319552844595 (- 54)"
  "jmul (fl 55) (fl (23 / 10)) = Dbl 8901646138474495 (- 46)"
  "fl (253 / 2) = Dbl 253 (- 1)"
  "jquot (fl 1) (fl 3) = Dbl 6004799503160661 (- 54)"
  by code_simp+

text \<open>A number that exceeds another is not at most it.\<close>

lemma jgt_not_jle: "jgt x y \<Longrightarrow> \<not> jle x y"
  by (cases x; cases y) (auto simp: Let_def)

subsection \<open>Facts about the loop\<close>

lemma analyzeLoop_flagged:
  "analyzeLoop c rows ds tb =
     (ds @ flagged c rows, foldl jadd tb (map TotalBilledAmount rows))"
  by (induction rows arbitrary: ds tb) (simp_all add: flagged_def)

lemma discrepancies_analyzeInvoice:
  "discrepancies (analyzeInvoice rows c) = flagged c rows"
  by (simp add: analyzeInvoice_def analyzeLoop_flagged)

lemma flagged_append: "flagged c (xs @ ys) = flagged c xs @ flagged c ys"
  by (simp add: flagged_def)

subsection \<open>The end-to-end scenario\<close>

text \<open>
  C1 (as stated, refuted).  The scenario row is Prepaid and is billed 45 against an
  expected freight of 40.  The check \<open>orderType === "Prepaid" && totalBilledAmount >
  expectedFreight + 1\<close> fires (45 exceeds 41), so the label of the one discrepancy is
  "Invalid COD Charge"; the fallback "Rate Overcharge" is not reached.
\<close>

theorem scenario_label_not_rate_overcharge:
  "map issue_type (discrepancies (analyzeInvoice [rowX1] (scenarioContract (fl 0))))
     = [''Invalid COD Charge'']
   \<and> ''Invalid COD Charge'' \<noteq> ''Rate Overcharge''"
  by code_simp

text \<open>
  C1 (amended).  For the scenario contract (whatever its RTO fee) and the single
  scenario row, \<open>analyzeInvoice\<close> computes expectedFreight = 40, expectedTotal = 40
  and difference = 5, and returns exactly one discrepancy, for AWB X1, labelled
  "Invalid COD Charge", with billed amount 45, correct amount 40.00 and difference
  5.00; the total overcharge is 5, the row count 1 and the total billed 45.
\<close>

theorem scenario_prepaid_row:
  "expectedFreight (scenarioContract rto) rowX1 = fl 40
   \<and> expectedTotal (scenarioContract rto) rowX1 = fl 40
   \<and> rowDifference (scenarioContract rto) rowX1 = fl 5
   \<and> analyzeInvoice [rowX1] (scenarioContract rto) =
       \<lparr> discrepancies =
           [\<lparr> awb_number = ''X1'', issue_type = ''Invalid COD Charge'',
              billed_amount = fl 45, correct_amount = fl 40, difference = fl 5 \<rparr>],
         totalOvercharge = fl 5, totalRows = 1, totalBilled = fl 45 \<rparr>"
  by code_simp

subsection \<open>The tolerance\<close>

text \<open>
  C2.  The tolerance of 1 is a strict boundary, for every row at every place of the
  input and for the difference as the code computes it in doubles
  (TotalBilledAmount minus expectedTotal): when the computed difference is 1 or
  less, the row adds nothing to the discrepancies of the run; when it exceeds 1,
  the row adds exactly one discrepancy, in its place, carrying the row's AWB and
  the computed difference rounded to two decimals.
\<close>

theorem tolerance_strict_boundary:
  "(jle (rowDifference c row) (fl 1) \<longrightarrow>
      discrepancies (analyzeInvoice (before @ row # after) c) =
        discrepancies (analyzeInvoice before c) @ discrepancies (analyzeInvoice after c))
   \<and> (jgt (rowDifference c row) (fl 1) \<longrightarrow>
      discrepancies (analyzeInvoice (before @ row # after) c) =
        discrepancies (analyzeInvoice before c) @ mkDiscrepancy c row
          # discrepancies (analyzeInvoice after c)
      \<and> awb_number (mkDiscrepancy c row) = AWB row
      \<and> difference (mkDiscrepancy c row) = jtoFixed2 (rowDifference c row))"
proof -
  have one: "fl 1 = Dbl 1 0"
    by code_simp
  have "jgt (rowDifference c row) (Dbl 1 0) \<Longrightarrow> \<not> jle (rowDifference c row) (Dbl 1 0)"
    by (rule jgt_not_jle)
  then show ?thesis
    unfolding one
    by (auto simp: discrepancies_analyzeInvoice flagged_append flagged_def mkDiscrepancy_def)
qed

text \<open>The boundary at three rows of the scenario contract.  A bill of 41 against a
  freight of 40 differs by exactly 1 and is not recorded.  A bill of 41.01 differs
  by the double 1.009999999999998 and is recorded with the difference 1.01.  A bill
  of 127.5 for 2.3 kg at the rate 55 differs by the double 1.0000000000000142,
  because the product 55 * 2.3 is rounded below 126.5: the row is recorded, with
  the difference 1.00.\<close>

theorem tolerance_strict_boundary_witness:
  "rowDifference (scenarioContract (fl 0)) rowBilled41 = fl 1
   \<and> discrepancies (analyzeInvoice [rowBilled41] (scenarioContract (fl 0))) = []
   \<and> rowDifference (scenarioContract (fl 0)) rowBilled4101 = Dbl 142144863238881 (- 47)
   \<and> map difference (discrepancies (analyzeInvoice [rowBilled4101] (scenarioContract (fl 0))))
       = [fl (101 / 100)]
   \<and> rowDifference (scenarioContract (fl 0)) rowZoneB = Dbl 70368744177665 (- 46)
   \<and> map difference (discrepancies (analyzeInvoice [rowZoneB] (scenarioContract (fl 0))))
       = [fl 1]"
proof -
  let ?c = "scenarioContract (fl 0)"
  have d1: "rowDifference ?c rowBilled41 = fl 1"
    by code_simp
  have d2: "rowDifference ?c rowBilled4101 = Dbl 142144863238881 (- 47)"
    by code_simp
  have d3: "rowDifference ?c rowZoneB = Dbl 70368744177665 (- 46)"
    by code_simp
  have c1: "jle (rowDifference ?c rowBilled41) (fl 1)"
    by code_simp
  have c2: "jgt (rowDifference ?c rowBilled4101) (fl 1)"
    by code_simp
  have c3: "jgt (rowDifference ?c rowZoneB) (fl 1)"
    by code_simp
  have t2: "jtoFixed2 (Dbl 142144863238881 (- 47)) = fl (101 / 100)"
    by code_simp
  have t3: "jtoFixed2 (Dbl 70368744177665 (- 46)) = fl 1"
    by code_simp
  have e: "discrepancies (analyzeInvoice [] ?c) = []"
    by (simp add: analyzeInvoice_def)
  have r1: "discrepancies (analyzeInvoice [rowBilled41] ?c) = []"
    using tolerance_strict_boundary [of ?c rowBilled41 "[]" "[]"] c1 e by simp
  have r2: "map difference (discrepancies (analyzeInvoice [rowBilled4101] ?c)) = [fl (101 / 100)]"
    using tolerance_strict_boundary [of ?c rowBilled4101 "[]" "[]"] c2 e d2 t2 by simp
  have r3: "map difference (discrepancies (analyzeInvoice [rowZoneB] ?c)) = [fl 1]"
    using tolerance_strict_boundary [of ?c rowZoneB "[]" "[]"] c3 e d3 t3 by simp
  show ?thesis
    using d1 d2 d3 r1 r2 r3 by simp
qed

subsection \<open>Zones outside the rate card\<close>

text \<open>
  C9 (the code at the failing input).  The claim is that every actual zone other
  than A, B and C resolves to the base rate 0.  For the actual zone "constructor"
  the lookup in \<open>ZONE_RATE_MAP\<close> finds the inherited property, the rate read from the
  contract is undefined, and the expected total and the difference are \<open>NaN\<close>: the
  row, billed 0.50, is flagged although it does not exceed the tolerance, and the
  discrepancy and the total overcharge carry \<open>NaN\<close>.
\<close>

theorem inherited_zone_gives_nan:
  "baseRate (scenarioContract (fl 0)) rowInheritedZone = NaN
   \<and> expectedTotal (scenarioContract (fl 0)) rowInheritedZone = NaN
   \<and> analyzeInvoice [rowInheritedZone] (scenarioContract (fl 0)) =
       \<lparr> discrepancies =
           [\<lparr> awb_number = ''X3'', issue_type = ''Rate Overcharge'',
              billed_amount = fl (1 / 2), correct_amount = NaN, difference = NaN \<rparr>],
         totalOvercharge = NaN, totalRows = 1, totalBilled = fl (1 / 2) \<rparr>"
  by code_simp

text \<open>For every other zone outside the rate card the base rate is 0, and for a
  finite billed weight and a finite COD percentage the expected total is 0 with
  and without the COD fee, so the difference is the billed amount less zero.\<close>

lemma unlisted_zone_rate_zero:
  assumes "ActualZone row \<notin> {''A'', ''B'', ''C''}"
      and "ActualZone row \<notin> set objectPrototypeKeys"
      and "BilledWeight row = Dbl w i"
      and "cod_fee_percentage c = Dbl p j"
  shows "baseRate c row = Dbl 0 0"
    and "expectedTotal c row = Dbl 0 0"
    and "rowDifference c row = jsub (TotalBilledAmount row) (Dbl 0 0)"
proof -
  have h: "fl 100 = Dbl 25 2"
    by code_simp
  show b: "baseRate c row = Dbl 0 0"
    using assms by (simp add: baseRate_def ZONE_RATE_MAP_def)
  show t: "expectedTotal c row = Dbl 0 0"
    using b assms(3,4) by (simp add: expectedTotal_def expectedFreight_def h)
  show "rowDifference c row = jsub (TotalBilledAmount row) (Dbl 0 0)"
    using t by (simp add: rowDifference_def)
qed

subsection \<open>Categorising the overcharge\<close>

lemma splitAcc_nonempty: "splitAcc sep acc s \<noteq> []"
  by (induction sep acc s rule: splitAcc.induct) auto

text \<open>A discrepancy always has a label, so the divisor of its share is the number
  of its labels.\<close>

lemma issueTypes_nonempty: "issueTypes d \<noteq> []"
  by (simp add: issueTypes_def splitStr_def splitAcc_nonempty)

text \<open>A dual-labelled discrepancy of 10 puts 5 into each of its two buckets.  One of
  2.01 puts 1.00 into each: the share 2.01 / 2 is the double below 1.005, its
  hundredfold is below 100.5, and \<open>Math.round\<close> gives 100.\<close>

lemma categorize_dual_labelled:
  "categorizeOvercharge [dualLabelled] =
     \<lparr> weightMismatch = fl 5, zoneMismatch = fl 5, duplicateAWB = fl 0,
       incorrectCOD = fl 0, rtoMismatch = fl 0, other = fl 0 \<rparr>"
  "share dualLabelledOdd = Dbl 1131529406376837 (- 50)"
  "categorizeOvercharge [dualLabelledOdd] =
     \<lparr> weightMismatch = fl 1, zoneMismatch = fl 1, duplicateAWB = fl 0,
       incorrectCOD = fl 0, rtoMismatch = fl 0, other = fl 0 \<rparr>"
  by code_simp+

text \<open>
  C8 (the code at the failing input).  The claim is that the six buckets sum, within
  rounding tolerance, to the total overcharge of the run.  For the run of the
  scenario row X1 and the row whose actual zone is "constructor", the second
  discrepancy carries the difference \<open>NaN\<close>; its share goes into the bucket
  \<open>other\<close>, which stays \<open>NaN\<close> through the rounding, and the total overcharge of the run
  is \<open>NaN\<close> as well.  The sum of the buckets is \<open>NaN\<close>, and it is within no tolerance of
  the total, whatever the tolerance.
\<close>

theorem categorize_nan_bucket:
  "map issue_type (discrepancies (analyzeInvoice [rowX1, rowInheritedZone] (scenarioContract (fl 0))))
     = [''Invalid COD Charge'', ''Rate Overcharge'']
   \<and> map difference
         (discrepancies (analyzeInvoice [rowX1, rowInheritedZone] (scenarioContract (fl 0))))
     = [fl 5, NaN]
   \<and> categorizeOvercharge
         (discrepancies (analyzeInvoice [rowX1, rowInheritedZone] (scenarioContract (fl 0))))
     = \<lparr> weightMismatch = fl 0, zoneMismatch = fl 0, duplicateAWB = fl 0,
         incorrectCOD = fl 5, rtoMismatch = fl 0, other = NaN \<rparr>
   \<and> totalOvercharge (analyzeInvoice [rowX1, rowInheritedZone] (scenarioContract (fl 0))) = NaN
   \<and> bucketTotal (categorizeOvercharge
         (discrepancies (analyzeInvoice [rowX1, rowInheritedZone] (scenarioContract (fl 0)))))
     = NaN
   \<and> \<not> withinTolerance tol
         (categorizeOvercharge
            (discrepancies (analyzeInvoice [rowX1, rowInheritedZone] (scenarioContract (fl 0)))))
         (totalOvercharge (analyzeInvoice [rowX1, rowInheritedZone] (scenarioContract (fl 0))))"
proof -
  let ?run = "analyzeInvoice [rowX1, rowInheritedZone] (scenarioContract (fl 0))"
  have l: "map issue_type (discrepancies ?run) = [''Invalid COD Charge'', ''Rate Overcharge'']"
    by code_simp
  have d: "map difference (discrepancies ?run) = [fl 5, NaN]"
    by code_simp
  have c: "categorizeOvercharge (discrepancies ?run)
     = \<lparr> weightMismatch = fl 0, zoneMismatch = fl 0, duplicateAWB = fl 0,
         incorrectCOD = fl 5, rtoMismatch = fl 0, other = NaN \<rparr>"
    by code_simp
  have t: "totalOvercharge ?run = NaN"
    by code_simp
  have b: "bucketTotal (categorizeOvercharge (discrepancies ?run)) = NaN"
    by code_simp
  have "\<not> withinTolerance tol (categorizeOvercharge (discrepancies ?run)) (totalOvercharge ?run)"
    unfolding withinTolerance_def b t by (simp add: jsub_def)
  then show ?thesis
    using l d c t b by simp
qed

text \<open>The same happens without any zone: a row whose billed amount does not convert
  to a number is flagged with the difference \<open>NaN\<close>.\<close>

lemma missing_amount_gives_nan:
  "map difference
     (discrepancies (analyzeInvoice [rowX1\<lparr>TotalBilledAmount := NaN\<rparr>] (scenarioContract (fl 0))))
     = [NaN]"
  by code_simp

subsection \<open>The regression\<close>

text \<open>\<open>runRegression\<close> returns no result exactly when there are fewer than 30 points or
  the denominator that it computes is zero.\<close>

lemma runRegression_None_iff:
  "runRegression points = None \<longleftrightarrow>
     length points < 30 \<or> regressionDenom points = Dbl 0 0"
  by (simp add: runRegression_def regressionDenom_def MIN_POINTS_FOR_REGRESSION_def Let_def
      split: prod.splits)

text \<open>
  C4 (the code at the failing input).  The claim is that \<open>runRegression\<close> returns no
  result when all declared weights are identical, the case that the source marks
  with the comment "all x values identical - can't regress".  For thirty points
  that all have the declared weight 1.1 and the billed weight 1.21, the sums of the
  first loop are rounded: \<open>sumX\<close> is 33.000000000000014 and \<open>sumX2\<close> is
  36.30000000000002, and the denominator \<open>n * sumX2 - sumX * sumX\<close> is not zero but
  -2 ^ -41.  The test \<open>denom === 0\<close> fails and a record is returned, with the slope
  2.5, the intercept -1.54 and R squared 0.8889.
\<close>

theorem identical_weights_give_a_record:
  "length identicalPoints = 30
   \<and> map declaredWeight_g identicalPoints = replicate 30 (fl (11 / 10))
   \<and> sumX (foldl sumStep zeroSums identicalPoints) = Dbl 2322168557862913 (- 46)
   \<and> sumX2 (foldl sumStep zeroSums identicalPoints) = Dbl 5108770827298409 (- 47)
   \<and> regressionDenom identicalPoints = Dbl (- 1) (- 41)
   \<and> runRegression identicalPoints =
       Some \<lparr> provider = ''Delhivery'', pointCount = 30, slope = fl (5 / 2),
              intercept = fl (- (154 / 100)), r2 = fl (8889 / 10000),
              avgOverchargePct = fl 10 \<rparr>"
proof -
  have s: "foldl sumStep zeroSums identicalPoints =
      \<lparr> sumX = Dbl 2322168557862913 (- 46), sumY = Dbl 5108770827298409 (- 47),
        sumXY = Dbl 702455988753531 (- 44), sumX2 = Dbl 5108770827298409 (- 47),
        sumOverchargePct = Dbl 1688849860263935 (- 49) \<rparr>"
    by code_simp
  have "length identicalPoints = 30"
    by (simp add: identicalPoints_def)
  moreover have "map declaredWeight_g identicalPoints = replicate 30 (fl (11 / 10))"
    by (simp add: identicalPoints_def pointIdentical_def)
  moreover have "regressionDenom identicalPoints = Dbl (- 1) (- 41)"
    by code_simp
  moreover have "runRegression identicalPoints =
       Some \<lparr> provider = ''Delhivery'', pointCount = 30, slope = fl (5 / 2),
              intercept = fl (- (154 / 100)), r2 = fl (8889 / 10000),
              avgOverchargePct = fl 10 \<rparr>"
    by code_simp
  ultimately show ?thesis
    by (simp add: s)
qed

text \<open>The same for thirty points of 33333333 g each, whole numbers of grams as the
  upload page stores them: the denominator is -640.\<close>

lemma identical_whole_weights_give_a_record:
  "regressionDenom heavyPoints = fl (- 640)"
  "runRegression heavyPoints =
     Some \<lparr> provider = ''Delhivery'', pointCount = 30, slope = fl (14 / 10),
            intercept = fl (- (100000002 / 10)), r2 = fl 1, avgOverchargePct = fl 10 \<rparr>"
  by code_simp+

text \<open>Thirty points whose declared weights are not identical, twenty-nine of 1e200
  and one of 2e200: the squares overflow, the denominator is infinity minus
  infinity, and the record carries \<open>NaN\<close> for the slope, the intercept and R
  squared.\<close>

lemma overflow_gives_nan_statistics:
  "regressionDenom hugePoints = NaN"
  "runRegression hugePoints =
     Some \<lparr> provider = ''Delhivery'', pointCount = 30, slope = NaN, intercept = NaN,
            r2 = NaN, avgOverchargePct = fl (1017 / 100) \<rparr>"
  by code_simp+

text \<open>
  C3 (the code at the failing input).  The claim is that \<open>avgOverchargePct\<close> is the
  mean over the points with a positive declared weight only.  The source adds the
  ratio of those points only, but divides the sum by the number of all points.  For
  thirty points of which twenty-nine are overcharged by 10 percent and one has the
  declared weight 0, the declared weights are not identical, the mean over the
  twenty-nine points is 10.00, and \<open>runRegression\<close> returns 9.67.
\<close>

theorem avg_overcharge_divides_by_all_points:
  "map_option avgOverchargePct (runRegression pointsWithZero) = Some (fl (967 / 100))
   \<and> meanOverchargePct pointsWithZero = 10
   \<and> length pointsWithZero = 30
   \<and> regressionDenom pointsWithZero = fl 290000"
proof -
  have "map_option avgOverchargePct (runRegression pointsWithZero) = Some (fl (967 / 100))"
    by code_simp
  moreover have "meanOverchargePct pointsWithZero = 10"
    by code_simp
  moreover have "length pointsWithZero = 30"
    by (simp add: pointsWithZero_def)
  moreover have "regressionDenom pointsWithZero = fl 290000"
    by code_simp
  ultimately show ?thesis
    by simp
qed

subsection \<open>The header row\<close>

text \<open>
  C6 (the code at the failing input).  The claim takes as candidates only the rows
  with at least two non-empty cells, and the comment above the function takes a
  row for a header when two or more of its cells contain a keyword.  The second
  row of this grid has one cell with one keyword and one empty cell, as a short
  row of a spreadsheet has once it is padded; the source tests \<open>row.length < 2\<close>, so
  the row is looked at, its one keyword beats the first row, and its index is
  returned.
\<close>

theorem findHeaderRow_counts_empty_cells:
  "findHeaderRow gridEmptyCell = 1 \<and> nonEmptyCells (gridEmptyCell ! 1) < 2
   \<and> keywordCells (gridEmptyCell ! 1) < 2"
  by code_simp

lemma findLoop_mono:
  "findLoop i rest (bi, bm) = (r, m) \<Longrightarrow> bm \<le> m"
proof (induction rest arbitrary: i bi bm)
  case Nil
  then show ?case by simp
next
  case (Cons row rest)
  show ?case
  proof (cases "length row < 2")
    case True
    then show ?thesis using Cons.prems Cons.IH [of "Suc i" bi bm] by simp
  next
    case False
    show ?thesis
    proof (cases "matchCount row > bm")
      case True
      then show ?thesis
        using False Cons.prems Cons.IH [of "Suc i" i "matchCount row"]
        by (auto simp: Let_def split: if_splits)
    next
      case False
      then show ?thesis
        using \<open>\<not> length row < 2\<close> Cons.prems Cons.IH [of "Suc i" bi bm]
        by (auto simp: Let_def split: if_splits)
    qed
  qed
qed

lemma findLoop_choice:
  "findLoop i rest (bi, bm) = (r, m) \<Longrightarrow>
     (r = bi \<and> m = bm) \<or>
     (\<exists>k<length rest. r = i + k \<and> cand (rest ! k) \<and> m = matchCount (rest ! k) \<and> bm < m
        \<and> (\<forall>k'<k. cand (rest ! k') \<longrightarrow> matchCount (rest ! k') < m))"
proof (induction rest arbitrary: i bi bm)
  case Nil
  then show ?case by simp
next
  case (Cons row rest)
  show ?case
  proof (cases "length row < 2")
    case True
    then have "findLoop (Suc i) rest (bi, bm) = (r, m)"
      using Cons.prems by simp
    from Cons.IH [OF this] True show ?thesis
      by (fastforce simp: cand_def less_Suc_eq_0_disj)
  next
    case long: False
    show ?thesis
    proof (cases "matchCount row > bm")
      case True
      show ?thesis
      proof (cases "matchCount row \<ge> 4")
        case True
        then have "r = i" "m = matchCount row"
          using long \<open>matchCount row > bm\<close> Cons.prems by (simp_all add: Let_def)
        then show ?thesis
          using long \<open>matchCount row > bm\<close> by (auto simp: cand_def)
      next
        case False
        then have f: "findLoop (Suc i) rest (i, matchCount row) = (r, m)"
          using long \<open>matchCount row > bm\<close> Cons.prems by (simp add: Let_def)
        from Cons.IH [OF f] show ?thesis
        proof
          assume "r = i \<and> m = matchCount row"
          then show ?thesis
            using long \<open>matchCount row > bm\<close> by (auto simp: cand_def)
        next
          assume "\<exists>k<length rest. r = Suc i + k \<and> cand (rest ! k) \<and> m = matchCount (rest ! k)
              \<and> matchCount row < m
              \<and> (\<forall>k'<k. cand (rest ! k') \<longrightarrow> matchCount (rest ! k') < m)"
          then obtain k where k: "k < length rest" "r = Suc i + k" "cand (rest ! k)"
              "m = matchCount (rest ! k)" "matchCount row < m"
              "\<forall>k'<k. cand (rest ! k') \<longrightarrow> matchCount (rest ! k') < m"
            by blast
          have "\<forall>k'<Suc k. cand ((row # rest) ! k') \<longrightarrow> matchCount ((row # rest) ! k') < m"
            using k by (auto simp: less_Suc_eq_0_disj)
          then show ?thesis
            using k \<open>matchCount row > bm\<close>
            by (intro disjI2 exI [of _ "Suc k"]) auto
        qed
      qed
    next
      case False
      then have le: "matchCount row \<le> bm" by simp
      show ?thesis
      proof (cases "matchCount row \<ge> 4")
        case True
        then show ?thesis
          using long le Cons.prems by (simp add: Let_def)
      next
        case False
        then have f: "findLoop (Suc i) rest (bi, bm) = (r, m)"
          using long le Cons.prems by (simp add: Let_def)
        from Cons.IH [OF f] show ?thesis
        proof
          assume "r = bi \<and> m = bm"
          then show ?thesis by simp
        next
          assume "\<exists>k<length rest. r = Suc i + k \<and> cand (rest ! k) \<and> m = matchCount (rest ! k)
              \<and> bm < m
              \<and> (\<forall>k'<k. cand (rest ! k') \<longrightarrow> matchCount (rest ! k') < m)"
          then obtain k where k: "k < length rest" "r = Suc i + k" "cand (rest ! k)"
              "m = matchCount (rest ! k)" "bm < m"
              "\<forall>k'<k. cand (rest ! k') \<longrightarrow> matchCount (rest ! k') < m"
            by blast
          have "\<forall>k'<Suc k. cand ((row # rest) ! k') \<longrightarrow> matchCount ((row # rest) ! k') < m"
            using k le by (auto simp: less_Suc_eq_0_disj)
          then show ?thesis
            using k
            by (intro disjI2 exI [of _ "Suc k"]) auto
        qed
      qed
    qed
  qed
qed


lemma findLoop_first_strong:
  assumes "bm < 4" and "findLoop i rest (bi, bm) = (r, m)"
      and "k < length rest" and "cand (rest ! k)" and "4 \<le> matchCount (rest ! k)"
      and "\<forall>k'<k. cand (rest ! k') \<longrightarrow> matchCount (rest ! k') < 4"
  shows "r = i + k"
  using assms
proof (induction rest arbitrary: i bi bm k)
  case Nil
  then show ?case by simp
next
  case (Cons row rest)
  show ?case
  proof (cases k)
    case 0
    then show ?thesis
      using Cons.prems by (simp add: cand_def Let_def)
  next
    case (Suc k')
    have later: "k' < length rest" "cand (rest ! k')" "4 \<le> matchCount (rest ! k')"
        "\<forall>j<k'. cand (rest ! j) \<longrightarrow> matchCount (rest ! j) < 4"
      using Cons.prems(3-6) Suc by auto
    have first: "cand row \<longrightarrow> matchCount row < 4"
      using Cons.prems(6) Suc by auto
    show ?thesis
    proof (cases "length row < 2")
      case True
      then have "findLoop (Suc i) rest (bi, bm) = (r, m)"
        using Cons.prems(2) by simp
      from Cons.IH [OF Cons.prems(1) this later] show ?thesis
        using Suc by simp
    next
      case False
      then have lt: "matchCount row < 4"
        using first by (simp add: cand_def)
      show ?thesis
      proof (cases "matchCount row > bm")
        case True
        then have "findLoop (Suc i) rest (i, matchCount row) = (r, m)"
          using False lt Cons.prems(2) by (simp add: Let_def)
        from Cons.IH [OF lt this later] show ?thesis
          using Suc by simp
      next
        case le: False
        then have "findLoop (Suc i) rest (bi, bm) = (r, m)"
          using False lt Cons.prems(2) by (simp add: Let_def)
        from Cons.IH [OF Cons.prems(1) this later] show ?thesis
          using Suc by simp
      qed
    qed
  qed
qed

lemma findLoop_max:
  assumes "findLoop i rest (bi, bm) = (r, m)"
      and "\<forall>k<length rest. cand (rest ! k) \<longrightarrow> matchCount (rest ! k) < 4"
      and "k < length rest" and "cand (rest ! k)"
  shows "matchCount (rest ! k) \<le> m"
  using assms
proof (induction rest arbitrary: i bi bm k)
  case Nil
  then show ?case by simp
next
  case (Cons row rest)
  have tail: "\<forall>j<length rest. cand (rest ! j) \<longrightarrow> matchCount (rest ! j) < 4"
    using Cons.prems(2) by auto
  have first: "cand row \<longrightarrow> matchCount row < 4"
    using Cons.prems(2) by auto
  obtain bi' bm' where step: "findLoop (Suc i) rest (bi', bm') = (r, m)"
      and keep: "cand row \<longrightarrow> matchCount row \<le> bm'"
  proof (cases "length row < 2")
    case True
    then have "findLoop (Suc i) rest (bi, bm) = (r, m)" "\<not> cand row"
      using Cons.prems(1) by (simp_all add: cand_def)
    then show ?thesis using that by blast
  next
    case False
    then have lt: "matchCount row < 4"
      using first by (simp add: cand_def)
    show ?thesis
    proof (cases "matchCount row > bm")
      case True
      then have "findLoop (Suc i) rest (i, matchCount row) = (r, m)"
        using False lt Cons.prems(1) by (simp add: Let_def)
      then show ?thesis using that by blast
    next
      case le: False
      then have "findLoop (Suc i) rest (bi, bm) = (r, m)" "matchCount row \<le> bm"
        using False lt Cons.prems(1) by (simp_all add: Let_def)
      then show ?thesis using that by blast
    qed
  qed
  show ?case
  proof (cases k)
    case 0
    then have "matchCount row \<le> bm'"
      using keep Cons.prems(4) by simp
    also have "bm' \<le> m"
      using step by (rule findLoop_mono)
    finally show ?thesis using 0 by simp
  next
    case (Suc k')
    then have "k' < length rest" "cand (rest ! k')"
      using Cons.prems(3,4) by auto
    from Cons.IH [OF step tail this] show ?thesis
      using Suc by simp
  qed
qed

lemma take_ten_candidate:
  "(k < length (take (min (length rows) 10) rows) \<and> cand (take (min (length rows) 10) rows ! k))
     = isCandidate rows k"
  by (auto simp: isCandidate_def cand_def)

text \<open>
  What the loop selects.  \<open>findHeaderRow\<close> looks at the rows with at least two cells,
  empty or not, among the first ten.  It returns 0 or the index of such a row.
  When some such row matches four keywords or more, it returns the first of them.
  When none does, the returned row matches the most keywords among all of them and
  strictly more than every one of them before it (the earlier row wins a tie), and
  when no such row matches any keyword it returns 0.
\<close>

lemma findHeaderRow_selects:
  "(findHeaderRow rows = 0 \<or> isCandidate rows (findHeaderRow rows))
   \<and> (\<forall>j. isCandidate rows j \<and> 4 \<le> matchCount (rows ! j)
          \<and> (\<forall>k<j. isCandidate rows k \<longrightarrow> matchCount (rows ! k) < 4)
        \<longrightarrow> findHeaderRow rows = j)
   \<and> ((\<forall>j. isCandidate rows j \<longrightarrow> matchCount (rows ! j) < 4) \<longrightarrow>
        (\<forall>j. isCandidate rows j \<longrightarrow>
           matchCount (rows ! j) \<le> selectedCount rows
           \<and> (j < findHeaderRow rows \<longrightarrow> matchCount (rows ! j) < selectedCount rows)))
   \<and> ((\<forall>j. isCandidate rows j \<longrightarrow> matchCount (rows ! j) = 0) \<longrightarrow> findHeaderRow rows = 0)"
proof -
  define xs where "xs = take (min (length rows) 10) rows"
  obtain r m where rm: "findLoop 0 xs (0, 0) = (r, m)"
    by (cases "findLoop 0 xs (0, 0)") auto
  then have r: "findHeaderRow rows = r"
    by (simp add: findHeaderRow_def xs_def)
  have c: "(k < length xs \<and> cand (xs ! k)) = isCandidate rows k" for k
    unfolding xs_def by (rule take_ten_candidate)
  have nth: "xs ! k = rows ! k" if "isCandidate rows k" for k
    using that by (simp add: xs_def isCandidate_def)
  have conv: "isCandidate rows k \<and> xs ! k = rows ! k" if "k < length xs" "cand (xs ! k)" for k
  proof -
    have "isCandidate rows k" using c [of k] that by simp
    then show ?thesis using nth by simp
  qed
  have choice: "(r = 0 \<and> m = 0) \<or>
      (isCandidate rows r \<and> m = matchCount (rows ! r) \<and> 0 < m
         \<and> (\<forall>k<r. isCandidate rows k \<longrightarrow> matchCount (rows ! k) < m))"
    using findLoop_choice [OF rm]
  proof (elim disjE exE conjE)
    assume "r = 0" "m = 0"
    then show ?thesis by simp
  next
    fix k
    assume k: "k < length xs" "r = 0 + k" "cand (xs ! k)" "m = matchCount (xs ! k)" "0 < m"
      "\<forall>k'<k. cand (xs ! k') \<longrightarrow> matchCount (xs ! k') < m"
    have "matchCount (rows ! k') < m" if "k' < k" "isCandidate rows k'" for k'
    proof -
      have "cand (xs ! k')" using c [of k'] that(2) by simp
      then have "matchCount (xs ! k') < m" using k(6) that(1) by blast
      then show ?thesis using nth [OF that(2)] by simp
    qed
    then show ?thesis
      using k(2,4,5) conv [OF k(1,3)] by simp
  qed
  have one: "r = 0 \<or> isCandidate rows r"
    using choice by blast
  have two: "r = j"
    if "isCandidate rows j" "4 \<le> matchCount (rows ! j)"
       "\<forall>k<j. isCandidate rows k \<longrightarrow> matchCount (rows ! k) < 4" for j
  proof -
    have j: "j < length xs" "cand (xs ! j)" "4 \<le> matchCount (xs ! j)"
      using that(1,2) c [of j] nth [of j] by simp_all
    have "matchCount (xs ! k) < 4" if "k < j" "cand (xs ! k)" for k
    proof -
      have "k < length xs" using that(1) j(1) by simp
      from conv [OF this that(2)] show ?thesis
        using \<open>\<forall>k<j. isCandidate rows k \<longrightarrow> matchCount (rows ! k) < 4\<close> that(1) by simp
    qed
    then have "\<forall>k<j. cand (xs ! k) \<longrightarrow> matchCount (xs ! k) < 4"
      by blast
    then have "r = 0 + j"
      using findLoop_first_strong [of 0 0 xs 0 r m j] rm j by simp
    then show ?thesis by simp
  qed
  have upper: "matchCount (rows ! j) \<le> m"
    if "\<forall>j. isCandidate rows j \<longrightarrow> matchCount (rows ! j) < 4" "isCandidate rows j" for j
  proof -
    have "matchCount (xs ! k) < 4" if "k < length xs" "cand (xs ! k)" for k
      using conv [OF that] \<open>\<forall>j. isCandidate rows j \<longrightarrow> matchCount (rows ! j) < 4\<close> by simp
    then have "\<forall>k<length xs. cand (xs ! k) \<longrightarrow> matchCount (xs ! k) < 4"
      by blast
    moreover have "j < length xs" "cand (xs ! j)"
      using that(2) c [of j] by simp_all
    ultimately have "matchCount (xs ! j) \<le> m"
      by (rule findLoop_max [OF rm])
    then show ?thesis using nth [OF that(2)] by simp
  qed
  have three: "matchCount (rows ! j) \<le> selectedCount rows
      \<and> (j < r \<longrightarrow> matchCount (rows ! j) < selectedCount rows)"
    if "\<forall>j. isCandidate rows j \<longrightarrow> matchCount (rows ! j) < 4" "isCandidate rows j" for j
  proof -
    have "isCandidate rows r \<longrightarrow> matchCount (rows ! r) \<le> m"
      using upper [OF that(1)] by blast
    then have sel: "selectedCount rows = m"
      using choice r by (auto simp: selectedCount_def)
    show ?thesis
      using upper [OF that] choice that(2) unfolding sel by auto
  qed
  have four: "r = 0" if "\<forall>j. isCandidate rows j \<longrightarrow> matchCount (rows ! j) = 0"
    using choice that by auto
  show ?thesis
    unfolding r using one two three four by blast
qed

text \<open>The example of the comment above the function, and a grid with two strong
  rows.\<close>

lemma findHeaderRow_selects_examples:
  "isCandidate gridDelhivery 2 \<and> findHeaderRow gridDelhivery = 2
   \<and> selectedCount gridDelhivery = 3
   \<and> isCandidate gridDelhivery 3
   \<and> matchCount (gridDelhivery ! 3) \<le> selectedCount gridDelhivery
   \<and> isCandidate gridStrong 0 \<and> 4 \<le> matchCount (gridStrong ! 0)
   \<and> findHeaderRow gridStrong = 0
   \<and> matchCount (gridStrong ! 0) < matchCount (gridStrong ! 1)"
proof -
  have r: "findHeaderRow gridDelhivery = 2"
    by code_simp
  have c: "isCandidate gridDelhivery 2" "isCandidate gridDelhivery 3"
    by (simp_all add: isCandidate_def gridDelhivery_def)
  have s: "selectedCount gridDelhivery = 3"
    by code_simp
  have m: "map matchCount gridDelhivery = [0, 0, 3, 0]"
    by code_simp
  have "matchCount (gridDelhivery ! j) < 4" if "j < length gridDelhivery" for j
  proof -
    have "map matchCount gridDelhivery ! j \<in> set (map matchCount gridDelhivery)"
      using that by (intro nth_mem) simp
    then show ?thesis
      using that unfolding m by (auto simp: nth_map [symmetric] m simp del: nth_map)
  qed
  then have weak: "\<forall>j. isCandidate gridDelhivery j \<longrightarrow> matchCount (gridDelhivery ! j) < 4"
    by (simp add: isCandidate_def)
  have a: "matchCount (gridDelhivery ! 3) \<le> selectedCount gridDelhivery"
    using findHeaderRow_selects [of gridDelhivery] weak c(2) by blast
  have c0: "isCandidate gridStrong 0"
    by (simp add: isCandidate_def gridStrong_def)
  have m0: "matchCount (gridStrong ! 0) = 6" and m1: "matchCount (gridStrong ! 1) = 8"
    by code_simp+
  have "findHeaderRow gridStrong = 0"
    using findHeaderRow_selects [of gridStrong] c0 m0 by simp
  then show ?thesis
    using r c s a c0 m0 m1 by simp
qed

subsection \<open>Normalising weights\<close>

text \<open>
  C7.  \<open>normalizeWeight\<close> is idempotent on its own output: its result is a number,
  and a number passes through unchanged, so normalising the result again gives
  the same result, for every input; and "500g" and "0.5kg" both give 0.5.
\<close>

theorem normalizeWeight_idempotent:
  "normalizeWeight (JNum (normalizeWeight x)) = normalizeWeight x
   \<and> normalizeWeight (JNum n) = n
   \<and> normalizeWeight (JStr ''500g'') = fl (1 / 2)
   \<and> normalizeWeight (JStr ''0.5kg'') = fl (1 / 2)"
proof -
  have "normalizeWeight (JStr ''500g'') = fl (1 / 2)"
    by code_simp
  moreover have "normalizeWeight (JStr ''0.5kg'') = fl (1 / 2)"
    by code_simp
  ultimately show ?thesis
    by simp
qed

subsection \<open>Detecting columns\<close>

lemma candidates_score: "c \<in> set (candidates hs k) \<Longrightarrow> 4 / 10 \<le> snd c"
  by (auto simp: candidates_def)

lemma candidates_raw: "c \<in> set (candidates hs k) \<Longrightarrow> fst c \<in> set hs"
  by (auto simp: candidates_def)

lemma assignStep_Some:
  assumes "find (\<lambda>c. fst c \<notin> set used) (candidates hs k) = Some c"
  shows "assignStep hs (mp, cf, used) k = (mp(k \<mapsto> Some (fst c)), cf(k \<mapsto> snd c), fst c # used)"
    and "fst c \<notin> set used" and "fst c \<in> set hs" and "4 / 10 \<le> snd c"
proof -
  show "assignStep hs (mp, cf, used) k = (mp(k \<mapsto> Some (fst c)), cf(k \<mapsto> snd c), fst c # used)"
    using assms by (simp add: assignStep_def)
  have "c \<in> set (candidates hs k)" and "fst c \<notin> set used"
    using assms by (auto simp: find_Some_iff)
  then show "fst c \<notin> set used" and "fst c \<in> set hs" and "4 / 10 \<le> snd c"
    using candidates_score candidates_raw by blast+
qed

lemma assignStep_None:
  assumes "find (\<lambda>c. fst c \<notin> set used) (candidates hs k) = None"
  shows "assignStep hs (mp, cf, used) k = (mp(k \<mapsto> None), cf(k \<mapsto> 0), used)"
  using assms by (simp add: assignStep_def)

lemma assignInv_step:
  assumes "assignInv st"
  shows "assignInv (assignStep hs st k)"
proof -
  obtain mp cf used where st: "st = (mp, cf, used)"
    by (cases st) auto
  have inv: "\<And>f h. mp f = Some (Some h) \<Longrightarrow> h \<in> set used \<and> (\<exists>s. cf f = Some s \<and> 4 / 10 \<le> s)"
    "\<And>f. mp f = Some None \<Longrightarrow> cf f = Some 0"
    "\<And>f g h. mp f = Some (Some h) \<Longrightarrow> mp g = Some (Some h) \<Longrightarrow> f = g"
    using assms unfolding st assignInv_def by auto
  show ?thesis
  proof (cases "find (\<lambda>c. fst c \<notin> set used) (candidates hs k)")
    case None
    show ?thesis
      unfolding st assignStep_None [OF None] assignInv_def
      using inv by (auto split: if_splits)
  next
    case (Some c)
    note s = assignStep_Some [OF Some]
    show ?thesis
      unfolding st s(1) assignInv_def
      using inv s(2,4) by (auto split: if_splits)
  qed
qed

lemma assignInv_foldl:
  "assignInv st \<Longrightarrow> assignInv (foldl (assignStep hs) st ks)"
  by (induction ks arbitrary: st) (simp_all add: assignInv_step)

lemma assignInv_empty: "assignInv (Map.empty, Map.empty, [])"
  by (simp add: assignInv_def)

lemma assignStep_key:
  "fst (assignStep hs st k) k \<noteq> None"
  by (cases st) (simp add: assignStep_def split: option.splits)

lemma assignStep_other:
  "f \<noteq> k \<Longrightarrow> fst (assignStep hs st k) f = fst st f
     \<and> fst (snd (assignStep hs st k)) f = fst (snd st) f"
  by (cases st) (simp add: assignStep_def split: option.splits)

lemma assignStep_keeps:
  "fst st f \<noteq> None \<Longrightarrow> fst (assignStep hs st k) f \<noteq> None"
  by (cases "f = k") (simp_all add: assignStep_key assignStep_other)

lemma foldl_assignStep_keeps:
  "fst st f \<noteq> None \<Longrightarrow> fst (foldl (assignStep hs) st ks) f \<noteq> None"
proof (induction ks arbitrary: st)
  case Nil
  then show ?case by simp
next
  case (Cons k ks)
  have "fst (assignStep hs st k) f \<noteq> None"
    using Cons.prems by (rule assignStep_keeps)
  then have "fst (foldl (assignStep hs) (assignStep hs st k) ks) f \<noteq> None"
    by (rule Cons.IH)
  then show ?case by simp
qed

lemma foldl_assignStep_key:
  "f \<in> set ks \<Longrightarrow> fst (foldl (assignStep hs) st ks) f \<noteq> None"
proof (induction ks arbitrary: st)
  case Nil
  then show ?case by simp
next
  case (Cons k ks)
  show ?case
  proof (cases "f = k")
    case True
    then show ?thesis
      by (simp add: foldl_assignStep_keeps assignStep_key)
  next
    case False
    then show ?thesis using Cons by simp
  qed
qed

lemma foldl_assignStep_other:
  "f \<notin> set ks \<Longrightarrow> fst (foldl (assignStep hs) st ks) f = fst st f
     \<and> fst (snd (foldl (assignStep hs) st ks)) f = fst (snd st) f"
  by (induction ks arbitrary: st) (simp_all add: assignStep_other)

lemma detectColumns_fields:
  "mapping (detectColumns hs) = fst (foldl (assignStep hs) (Map.empty, Map.empty, []) ALL_CANONICAL)"
  "confidences (detectColumns hs)
     = fst (snd (foldl (assignStep hs) (Map.empty, Map.empty, []) ALL_CANONICAL))"
  by (simp_all add: detectColumns_def Let_def split: prod.splits)

lemma detectColumns_inv:
  "assignInv (mapping (detectColumns hs), confidences (detectColumns hs),
     snd (snd (foldl (assignStep hs) (Map.empty, Map.empty, []) ALL_CANONICAL)))"
  using assignInv_foldl [OF assignInv_empty, of hs ALL_CANONICAL]
  by (simp add: detectColumns_fields)

lemma foldl_max_ge:
  "b \<le> foldl (\<lambda>best v. let s = g v in if s > best then s else best) b vs"
  for b :: rat
proof (induction vs arbitrary: b)
  case Nil
  then show ?case by simp
next
  case (Cons v vs)
  have "b \<le> (if g v > b then g v else b)" by simp
  also have "\<dots> \<le> foldl (\<lambda>best v. let s = g v in if s > best then s else best)
      (if g v > b then g v else b) vs"
    by (rule Cons.IH)
  finally show ?case by (simp add: Let_def)
qed

lemma foldl_max_ge_member:
  "v \<in> set vs \<Longrightarrow> g v \<le> foldl (\<lambda>best v. let s = g v in if s > best then s else best) b vs"
  for b :: rat
proof (induction vs arbitrary: b)
  case Nil
  then show ?case by simp
next
  case (Cons w vs)
  let ?b = "if g w > b then g w else b"
  show ?case
  proof (cases "v = w")
    case True
    have "g v \<le> ?b" using True by simp
    also have "\<dots> \<le> foldl (\<lambda>best v. let s = g v in if s > best then s else best) ?b vs"
      by (rule foldl_max_ge)
    finally show ?thesis by (simp add: Let_def)
  next
    case False
    then have "v \<in> set vs" using Cons.prems by simp
    then have "g v \<le> foldl (\<lambda>best v. let s = g v in if s > best then s else best) ?b vs"
      by (rule Cons.IH)
    then show ?thesis by (simp add: Let_def)
  qed
qed

lemma bestScore_ge_canonical: "similarity raw k \<le> bestScore k raw"
  unfolding bestScore_def by (rule foldl_max_ge)

lemma bestScore_ge_variation:
  "v \<in> set (variationsOf k) \<Longrightarrow> similarity raw v \<le> bestScore k raw"
  unfolding bestScore_def by (rule foldl_max_ge_member)

lemma find_unused_Some:
  assumes "raw \<in> set hs" and "4 / 10 \<le> bestScore k raw" and "raw \<notin> set used"
  shows "\<exists>c. find (\<lambda>c. fst c \<notin> set used) (candidates hs k) = Some c"
proof -
  have "(raw, bestScore k raw) \<in> set (candidates hs k)"
    using assms(1,2) by (auto simp: candidates_def)
  then have "find (\<lambda>c. fst c \<notin> set used) (candidates hs k) \<noteq> None"
    using assms(3) by (auto simp: find_None_iff)
  then show ?thesis by blast
qed

lemma find_all_used:
  assumes "set hs \<subseteq> set used"
  shows "find (\<lambda>c. fst c \<notin> set used) (candidates hs k) = None"
  unfolding find_None_iff using assms candidates_raw [of _ hs k] by blast

lemma sample_scores:
  "4 / 10 \<le> bestScore ''AWB'' ''AWB Type''"
  "4 / 10 \<le> bestScore ''AWB'' ''Type of AWB''"
  "4 / 10 \<le> bestScore ''OrderType'' ''AWB Type''"
  "4 / 10 \<le> bestScore ''OrderType'' ''Type of AWB''"
proof -
  have s: "similarity ''AWB Type'' ''AWB'' = 9 / 10" "similarity ''Type of AWB'' ''AWB'' = 9 / 10"
    "similarity ''AWB Type'' ''type'' = 9 / 10" "similarity ''Type of AWB'' ''type'' = 9 / 10"
    by code_simp+
  have v: "''type'' \<in> set (variationsOf ''OrderType'')"
    by code_simp
  show "4 / 10 \<le> bestScore ''AWB'' ''AWB Type''"
    using bestScore_ge_canonical [of "''AWB Type''" "''AWB''"] s(1) by simp
  show "4 / 10 \<le> bestScore ''AWB'' ''Type of AWB''"
    using bestScore_ge_canonical [of "''Type of AWB''" "''AWB''"] s(2) by simp
  show "4 / 10 \<le> bestScore ''OrderType'' ''AWB Type''"
    using bestScore_ge_variation [OF v, of "''AWB Type''"] s(3) by simp
  show "4 / 10 \<le> bestScore ''OrderType'' ''Type of AWB''"
    using bestScore_ge_variation [OF v, of "''Type of AWB''"] s(4) by simp
qed

lemma two_cover: "a \<in> {x, y} \<Longrightarrow> b \<in> {x, y} \<Longrightarrow> b \<noteq> a \<Longrightarrow> {x, y} \<subseteq> {b, a}"
  by auto

lemma sample_assignment:
  "\<exists>h1 h2. mapping (detectColumns sampleHeaders) ''AWB'' = Some (Some h1)
     \<and> mapping (detectColumns sampleHeaders) ''OrderType'' = Some (Some h2)
     \<and> mapping (detectColumns sampleHeaders) ''BilledWeight'' = Some None"
proof -
  define ks where "ks = [''ActualWeight'', ''BilledZone'', ''ActualZone'', ''TotalBilledAmount'',
    ''Length'', ''Width'', ''Height'', ''OriginPincode'', ''DestPincode'', ''CODAmount'',
    ''ShipmentDate'']"
  have all: "ALL_CANONICAL = ''AWB'' # ''OrderType'' # ''BilledWeight'' # ks"
    by (simp add: ALL_CANONICAL_def REQUIRED_CANONICAL_def OPTIONAL_CANONICAL_def ks_def)
  have hs: "set sampleHeaders = {''AWB Type'', ''Type of AWB''}"
    by (simp add: sampleHeaders_def)
  have r1: "''AWB Type'' \<in> set sampleHeaders" "''Type of AWB'' \<in> set sampleHeaders"
    by (simp_all add: sampleHeaders_def)
  have "''AWB Type'' \<notin> set []"
    by simp
  with r1(1) sample_scores(1)
  have "\<exists>c. find (\<lambda>c. fst c \<notin> set []) (candidates sampleHeaders ''AWB'') = Some c"
    by (rule find_unused_Some)
  then obtain c1 where c1: "find (\<lambda>c. fst c \<notin> set []) (candidates sampleHeaders ''AWB'') = Some c1"
    by (elim exE)
  note s1 = assignStep_Some(1) [OF c1, of Map.empty Map.empty]
  note p1 = assignStep_Some(3) [OF c1]
  have "\<exists>raw. raw \<in> set sampleHeaders \<and> 4 / 10 \<le> bestScore ''OrderType'' raw \<and> raw \<notin> set [fst c1]"
  proof (cases "fst c1 = ''AWB Type''")
    case True
    then have "''Type of AWB'' \<notin> set [fst c1]" by simp
    with r1(2) sample_scores(4) show ?thesis by blast
  next
    case False
    then have "''AWB Type'' \<notin> set [fst c1]" by simp
    with r1(1) sample_scores(3) show ?thesis by blast
  qed
  then obtain raw where raw: "raw \<in> set sampleHeaders" "4 / 10 \<le> bestScore ''OrderType'' raw"
      "raw \<notin> set [fst c1]"
    by (elim exE conjE)
  obtain c2 where c2: "find (\<lambda>c. fst c \<notin> set [fst c1]) (candidates sampleHeaders ''OrderType'')
      = Some c2"
    using find_unused_Some [OF raw] by (elim exE)
  note s2 = assignStep_Some(1) [OF c2, of "Map.empty(''AWB'' \<mapsto> Some (fst c1))"
      "Map.empty(''AWB'' \<mapsto> snd c1)"]
  note p2 = assignStep_Some(2,3) [OF c2]
  have "fst c1 \<in> {''AWB Type'', ''Type of AWB''}" and "fst c2 \<in> {''AWB Type'', ''Type of AWB''}"
    using p1 p2(2) unfolding hs by this+
  moreover have "fst c2 \<noteq> fst c1"
    using p2(1) by simp
  ultimately have "{''AWB Type'', ''Type of AWB''} \<subseteq> {fst c2, fst c1}"
    by (rule two_cover)
  then have "set sampleHeaders \<subseteq> set [fst c2, fst c1]"
    unfolding hs by (simp only: list.set)
  then have c3: "find (\<lambda>c. fst c \<notin> set [fst c2, fst c1]) (candidates sampleHeaders ''BilledWeight'')
      = None"
    by (rule find_all_used)
  note s3 = assignStep_None [OF c3, of "Map.empty(''AWB'' \<mapsto> Some (fst c1), ''OrderType'' \<mapsto> Some (fst c2))"
      "Map.empty(''AWB'' \<mapsto> snd c1, ''OrderType'' \<mapsto> snd c2)"]
  define st3 where "st3 = foldl (assignStep sampleHeaders) (Map.empty, Map.empty, [])
      [''AWB'', ''OrderType'', ''BilledWeight'']"
  have st3: "fst st3 = Map.empty(''AWB'' \<mapsto> Some (fst c1), ''OrderType'' \<mapsto> Some (fst c2),
      ''BilledWeight'' \<mapsto> None)"
    unfolding st3_def using s1 s2 s3 by simp
  have m: "mapping (detectColumns sampleHeaders) = fst (foldl (assignStep sampleHeaders) st3 ks)"
    unfolding detectColumns_fields all st3_def by simp
  have keep: "mapping (detectColumns sampleHeaders) f = fst st3 f" if "f \<notin> set ks" for f
    unfolding m using foldl_assignStep_other [OF that] by blast
  have "''AWB'' \<notin> set ks" "''OrderType'' \<notin> set ks" "''BilledWeight'' \<notin> set ks"
    by (simp_all add: ks_def)
  then show ?thesis
    using keep st3 by simp
qed


text \<open>
  C5.  For every list of raw headers, \<open>detectColumns\<close> never assigns one raw header
  to two canonical fields: two different fields whose entries in the returned
  mapping are not null have different raw headers.
\<close>

theorem detectColumns_unique_headers:
  assumes "mapping (detectColumns rawHeaders) f = Some (Some h)"
      and "mapping (detectColumns rawHeaders) g = Some (Some h')"
      and "f \<noteq> g"
  shows "h \<noteq> h'"
  using detectColumns_inv [of rawHeaders] assms unfolding assignInv_def by auto


theorem detectColumns_unique_headers_witness:
  "\<exists>h h'. mapping (detectColumns sampleHeaders) ''AWB'' = Some (Some h)
     \<and> mapping (detectColumns sampleHeaders) ''OrderType'' = Some (Some h')
     \<and> ''AWB'' \<noteq> ''OrderType'' \<and> h \<noteq> h'"
proof -
  obtain h h' where m: "mapping (detectColumns sampleHeaders) ''AWB'' = Some (Some h)"
      "mapping (detectColumns sampleHeaders) ''OrderType'' = Some (Some h')"
    using sample_assignment by blast
  have d: "''AWB'' \<noteq> ''OrderType''" by simp
  have "h \<noteq> h'"
    using m d by (rule detectColumns_unique_headers)
  then show ?thesis using m d by blast
qed


text \<open>
  C10.  In every result of \<open>detectColumns\<close>, a field whose mapping entry is a raw
  header has a confidence of at least 0.40, a field whose mapping entry is null has
  the confidence 0, and so, for every canonical field, the mapping entry is null
  exactly when the confidence is below 0.40.
\<close>

theorem detectColumns_confidence_floor:
  "(mapping (detectColumns rawHeaders) f = Some (Some h) \<longrightarrow>
      (\<exists>s. confidences (detectColumns rawHeaders) f = Some s \<and> 4 / 10 \<le> s))
   \<and> (mapping (detectColumns rawHeaders) f = Some None \<longrightarrow>
        confidences (detectColumns rawHeaders) f = Some 0)
   \<and> (f \<in> set ALL_CANONICAL \<longrightarrow>
        (\<exists>v s. mapping (detectColumns rawHeaders) f = Some v
            \<and> confidences (detectColumns rawHeaders) f = Some s
            \<and> (v = None \<longleftrightarrow> s < 4 / 10)))"
proof -
  note inv = detectColumns_inv [of rawHeaders, unfolded assignInv_def prod.case]
  have a: "\<exists>s. confidences (detectColumns rawHeaders) f = Some s \<and> 4 / 10 \<le> s"
    if "mapping (detectColumns rawHeaders) f = Some (Some h)" for h
    using inv that by blast
  have b: "confidences (detectColumns rawHeaders) f = Some 0"
    if "mapping (detectColumns rawHeaders) f = Some None"
    using inv that by blast
  have c: "\<exists>v s. mapping (detectColumns rawHeaders) f = Some v
            \<and> confidences (detectColumns rawHeaders) f = Some s
            \<and> (v = None \<longleftrightarrow> s < 4 / 10)" if fin: "f \<in> set ALL_CANONICAL"
  proof -
    obtain v where v: "mapping (detectColumns rawHeaders) f = Some v"
      using foldl_assignStep_key [OF fin, of rawHeaders "(Map.empty, Map.empty, [])"]
      by (auto simp: detectColumns_fields)
    show ?thesis
    proof (cases v)
      case None
      then show ?thesis using v b by simp
    next
      case (Some h)
      then show ?thesis using v a [of h] by auto
    qed
  qed
  show ?thesis using a b c by blast
qed

theorem detectColumns_confidence_floor_witness:
  "(\<exists>h s. mapping (detectColumns sampleHeaders) ''AWB'' = Some (Some h)
      \<and> confidences (detectColumns sampleHeaders) ''AWB'' = Some s \<and> 4 / 10 \<le> s)
   \<and> mapping (detectColumns sampleHeaders) ''BilledWeight'' = Some None
   \<and> confidences (detectColumns sampleHeaders) ''BilledWeight'' = Some 0
   \<and> ''BilledWeight'' \<in> set ALL_CANONICAL"
proof -
  obtain h where m: "mapping (detectColumns sampleHeaders) ''AWB'' = Some (Some h)"
      and n: "mapping (detectColumns sampleHeaders) ''BilledWeight'' = Some None"
    using sample_assignment by blast
  have a: "''BilledWeight'' \<in> set ALL_CANONICAL"
    by (simp add: ALL_CANONICAL_def REQUIRED_CANONICAL_def)
  show ?thesis
    using m n a detectColumns_confidence_floor [of sampleHeaders "''AWB''" h]
      detectColumns_confidence_floor [of sampleHeaders "''BilledWeight''"]
    by blast
qed

end

